theory Spec2Isabelle
  imports Complex_Main
begin

section \<open>MouseOverlay: a cursor overlay with a trail of dots\<close>

text \<open>
  The plugin of \<^verbatim>\<open>src/MouseOverlay/index.tsx\<close> keeps four module variables (\<open>style\<close>,
  \<open>cursor\<close>, \<open>trail\<close>, \<open>boundUpdateMousePosition\<close>) and acts on the document, the
  settings store and the timer queue of its host. The embedding passes one record around that
  holds the module variables together with that part of the host: the elements the plugin
  created (a store from references to elements), the children of \<open>document.head\<close> and
  \<open>document.body\<close>, the \<open>mousemove\<close> listeners, the pending timers and a clock in
  milliseconds.

  Numbers are modelled as rationals: the script only halves and quarters a size and subtracts
  it from a coordinate, which double arithmetic does exactly on the pixel values concerned.
  The conversion of a number to text inside a template literal belongs to the runtime; every
  operation that formats a number takes it as the parameter \<open>ns\<close>.

  The script is single-threaded: an event is handled to its end before the next one. Time is
  the clock of the event loop; it only moves between events, and a timer runs when the clock
  has reached the time it is due.
\<close>

subsection \<open>Settings\<close>

type_synonym number = rat

text \<open>
  The interface \<open>MouseOverlaySettings\<close>. The record is polymorphic in its field types:
  \<open>defaultSettings\<close> holds a value in every field, while a field of the stored object
  \<open>Settings.plugins.MouseOverlay\<close> may be missing, which is what \<open>??\<close> tests.
\<close>

record ('n, 's, 'b) MouseOverlaySettings =
  cursorSize :: 'n
  cursorColor :: 's
  trailEnabled :: 'b
  trailColor :: 's
  trailLength :: 'n
  cursorStyle :: 's

type_synonym stored_settings = "(number option, string option, bool option) MouseOverlaySettings"

definition CURSOR_URL :: string where
  "CURSOR_URL = ''https://github.com/Aitoner/MouseOverlay-Cursors/blob/main/Cursors/ntts.png?raw=true''"

definition defaultSettings :: "(number, string, bool) MouseOverlaySettings" where
  "defaultSettings =
     \<lparr>cursorSize = 20, cursorColor = ''#ffffff'', trailEnabled = False,
      trailColor = ''#ffffff'', trailLength = 5, cursorStyle = ''circle''\<rparr>"

text \<open>The styles offered by the \<open>cursorStyle\<close> option: value and label.\<close>

definition CURSOR_STYLES :: "(string \<times> string) list" where
  "CURSOR_STYLES =
     [(''circle'', ''Circle''),
      (''custom'', ''NTTS Cursor (NO COLOR CUSTOMIZATION, ONLY SIZE)'')]"

text \<open>\<open>v ?? d\<close>: the default replaces a missing value only (\<open>0\<close> and \<open>''''\<close> are kept).\<close>

definition nullish :: "'a option \<Rightarrow> 'a \<Rightarrow> 'a" where
  "nullish v d = (case v of None \<Rightarrow> d | Some x \<Rightarrow> x)"

text \<open>The truth value of \<open>settings.trailEnabled\<close> in a condition.\<close>

definition truthy :: "bool option \<Rightarrow> bool" where
  "truthy v = (case v of None \<Rightarrow> False | Some b \<Rightarrow> b)"

subsection \<open>The host: elements, document, listeners, timers\<close>

record element =
  tagName :: string
  id_attr :: string
  className :: string
  textContent :: string
  style_transform :: string
  style_left :: string
  style_top :: string

datatype js_error = TypeError

record state =
  style :: "nat option"
  cursor :: "nat option"
  trail :: "nat list"
  boundUpdateMousePosition :: "nat option"
  settings :: "stored_settings option"
  elems :: "nat \<Rightarrow> element"
  head :: "nat list"
  body :: "nat list option"
  listeners :: "nat list"
  timers :: "(nat \<times> nat) list"
  clock :: nat
  next_ref :: nat

type_synonym result = "js_error option \<times> state"

definition blank :: "string \<Rightarrow> element" where
  "blank tag = \<lparr>tagName = tag, id_attr = [], className = [], textContent = [],
     style_transform = [], style_left = [], style_top = []\<rparr>"

text \<open>
  \<open>document.createElement(tag)\<close> allocates the reference \<open>next_ref st\<close>; the caller reads
  it before the call.
\<close>

definition createElement :: "string \<Rightarrow> state \<Rightarrow> state" where
  "createElement tag st =
     st\<lparr>elems := (elems st)(next_ref st := blank tag), next_ref := Suc (next_ref st)\<rparr>"

definition children_of_body :: "state \<Rightarrow> nat list" where
  "children_of_body st = (case body st of None \<Rightarrow> [] | Some kids \<Rightarrow> kids)"

text \<open>\<open>n.parentNode\<close> is not null.\<close>

definition has_parent :: "state \<Rightarrow> nat \<Rightarrow> bool" where
  "has_parent st n = (n \<in> set (head st) \<or> n \<in> set (children_of_body st))"

text \<open>\<open>n.remove()\<close>, and \<open>n.parentNode.removeChild(n)\<close>.\<close>

definition detach :: "nat \<Rightarrow> state \<Rightarrow> state" where
  "detach n st = st\<lparr>head := removeAll n (head st), body := map_option (removeAll n) (body st)\<rparr>"

text \<open>\<open>if (n?.parentNode) n.remove()\<close>\<close>

definition remove_if_attached :: "nat \<Rightarrow> state \<Rightarrow> state" where
  "remove_if_attached n st = (if has_parent st n then detach n st else st)"

text \<open>\<open>document.head.appendChild(n)\<close>: a node that has a parent is moved.\<close>

definition appendChild_head :: "nat \<Rightarrow> state \<Rightarrow> state" where
  "appendChild_head n st = (let st' = detach n st in st'\<lparr>head := head st' @ [n]\<rparr>)"

text \<open>\<open>document.body.appendChild(n)\<close>: reading a property of a null body raises.\<close>

definition appendChild_body :: "nat \<Rightarrow> state \<Rightarrow> result" where
  "appendChild_body n st =
     (case body st of
        None \<Rightarrow> (Some TypeError, st)
      | Some _ \<Rightarrow> (let st' = detach n st in (None, st'\<lparr>body := Some (children_of_body st' @ [n])\<rparr>)))"

text \<open>\<open>setTimeout(callback of dot, delay)\<close>: the callback is identified by the dot it captures.\<close>

definition setTimeout :: "nat \<Rightarrow> nat \<Rightarrow> state \<Rightarrow> state" where
  "setTimeout dot delay st = st\<lparr>timers := timers st @ [(clock st + delay, dot)]\<rparr>"

subsection \<open>updateStyles\<close>

definition newline :: string where
  "newline = [CHR 0x0A]"

definition quote :: string where
  "quote = [CHR 0x27]"

text \<open>The two alternatives of the conditional inside the template literal.\<close>

definition circle_block :: "string \<Rightarrow> string" where
  "circle_block color = newline @
     ''                    background-color: '' @ color @ '';'' @ newline @
     ''                    border-radius: 50%;'' @ newline @
     ''                ''"

definition image_block :: string where
  "image_block = newline @
     ''                    background-image: url('' @ quote @ CURSOR_URL @ quote @ '');'' @ newline @
     ''                    background-size: contain;'' @ newline @
     ''                    background-repeat: no-repeat;'' @ newline @
     ''                    background-position: center;'' @ newline @
     ''                ''"

definition suppress_native_cursor :: string where
  \<open>suppress_native_cursor = newline @
     ''            * {'' @ newline @
     ''                cursor: none !important;'' @ newline @
     ''            }'' @ newline @
     ''            a, button, [role="button"], [class*="clickable"], [class*="interactive"],'' @ newline @
     ''            [class*="control"], input, textarea, select, [class*="slider"],'' @ newline @
     ''            [class*="scrollbar"], [class*="icon"], [class*="menu"],'' @ newline @
     ''            [class*="option"], [class*="item"], [class*="attachment"],'' @ newline @
     ''            [class*="card"], [class*="container"], [class*="wrapper"] {'' @ newline @
     ''                cursor: none !important;'' @ newline @
     ''            }'' @ newline\<close>

text \<open>The template literal, cut at its conditional: what precedes it and what follows it.\<close>

definition overlay_geometry :: "(number \<Rightarrow> string) \<Rightarrow> number \<Rightarrow> string" where
  "overlay_geometry ns csize =
     ''            #vencord-mouse-overlay {'' @ newline @
     ''                position: fixed;'' @ newline @
     ''                width: '' @ ns csize @ ''px;'' @ newline @
     ''                height: '' @ ns csize @ ''px;'' @ newline @
     ''                pointer-events: none;'' @ newline @
     ''                z-index: 999999;'' @ newline @
     ''                transition: transform 0.1s ease;'' @ newline @
     ''                will-change: transform;'' @ newline @
     ''                ''"

definition trail_rule :: "(number \<Rightarrow> string) \<Rightarrow> number \<Rightarrow> string \<Rightarrow> string" where
  "trail_rule ns csize tcolor = newline @
     ''            }'' @ newline @
     ''            .mouse-trail {'' @ newline @
     ''                position: fixed;'' @ newline @
     ''                width: '' @ ns (csize * (1 / 2)) @ ''px;'' @ newline @
     ''                height: '' @ ns (csize * (1 / 2)) @ ''px;'' @ newline @
     ''                background-color: '' @ tcolor @ '';'' @ newline @
     ''                border-radius: 50%;'' @ newline @
     ''                pointer-events: none;'' @ newline @
     ''                z-index: 999998;'' @ newline @
     ''                opacity: 0.5;'' @ newline @
     ''            }'' @ newline @
     ''        ''"

definition stylesheet :: "(number \<Rightarrow> string) \<Rightarrow> number \<Rightarrow> string \<Rightarrow> string \<Rightarrow> string \<Rightarrow> string" where
  "stylesheet ns csize color tcolor cstyle =
     suppress_native_cursor @
     overlay_geometry ns csize @
     (if cstyle = ''circle'' then circle_block color else image_block) @
     trail_rule ns csize tcolor"

definition set_textContent :: "nat \<Rightarrow> string \<Rightarrow> state \<Rightarrow> state" where
  "set_textContent n txt st = st\<lparr>elems := (elems st)(n := (elems st n)\<lparr>textContent := txt\<rparr>)\<rparr>"

definition updateStyles :: "(number \<Rightarrow> string) \<Rightarrow> state \<Rightarrow> result" where
  "updateStyles ns st =
     (case style st of
        None \<Rightarrow> (None, st)
      | Some sheet \<Rightarrow>
          (case settings st of
             None \<Rightarrow> (None, st)
           | Some s \<Rightarrow>
               (None, set_textContent sheet
                  (stylesheet ns
                     (nullish (cursorSize s) (cursorSize defaultSettings))
                     (nullish (cursorColor s) (cursorColor defaultSettings))
                     (nullish (trailColor s) (trailColor defaultSettings))
                     (nullish (cursorStyle s) (cursorStyle defaultSettings))) st)))"

subsection \<open>updateMousePosition\<close>

record MouseEvent =
  clientX :: number
  clientY :: number

definition set_transform :: "nat \<Rightarrow> string \<Rightarrow> state \<Rightarrow> state" where
  "set_transform n v st = st\<lparr>elems := (elems st)(n := (elems st n)\<lparr>style_transform := v\<rparr>)\<rparr>"

text \<open>The three assignments to the new dot: \<open>className\<close>, \<open>style.left\<close>, \<open>style.top\<close>.\<close>

definition init_dot :: "nat \<Rightarrow> string \<Rightarrow> string \<Rightarrow> state \<Rightarrow> state" where
  "init_dot n l t st =
     st\<lparr>elems := (elems st)(n := (elems st n)\<lparr>className := ''mouse-trail'', style_left := l, style_top := t\<rparr>)\<rparr>"

text \<open>
  The overflow check after \<open>trail.push(dot)\<close>: \<open>trail[0]\<close> is detached when it has a parent,
  and \<open>trail.shift()\<close> drops it from the queue.
\<close>

definition evict_oldest :: "number \<Rightarrow> state \<Rightarrow> state" where
  "evict_oldest limit st =
     (if of_nat (length (trail st)) > limit
      then (case trail st of
              [] \<Rightarrow> st
            | oldest # rest \<Rightarrow> (remove_if_attached oldest st)\<lparr>trail := rest\<rparr>)
      else st)"

definition updateMousePosition :: "(number \<Rightarrow> string) \<Rightarrow> MouseEvent \<Rightarrow> state \<Rightarrow> result" where
  "updateMousePosition ns e st =
     (case cursor st of
        None \<Rightarrow> (None, st)
      | Some c \<Rightarrow>
          (case settings st of
             None \<Rightarrow> (None, st)
           | Some s \<Rightarrow>
               (let csize = nullish (cursorSize s) (cursorSize defaultSettings);
                    st1 = set_transform c
                            (''translate('' @ ns (clientX e - csize / 2) @ ''px, '' @
                                              ns (clientY e - csize / 2) @ ''px)'') st
                in if truthy (trailEnabled s)
                   then (let dot = next_ref st1;
                             st2 = init_dot dot (ns (clientX e - csize / 4) @ ''px'')
                                                (ns (clientY e - csize / 4) @ ''px'')
                                     (createElement ''div'' st1)
                         in case appendChild_body dot st2 of
                              (Some err, st3) \<Rightarrow> (Some err, st3)
                            | (None, st3) \<Rightarrow>
                                (let st4 = st3\<lparr>trail := trail st3 @ [dot]\<rparr>;
                                     st5 = evict_oldest
                                             (nullish (trailLength s) (trailLength defaultSettings)) st4
                                 in (None, setTimeout dot 100 st5)))
                   else (None, st1))))"

text \<open>The callback given to \<open>setTimeout\<close>, for the dot it captured.\<close>

definition dot_timeout :: "nat \<Rightarrow> state \<Rightarrow> result" where
  "dot_timeout dot st =
     (let st1 = remove_if_attached dot st
      in (None, st1\<lparr>trail := filter (\<lambda>d. d \<noteq> dot) (trail st1)\<rparr>))"

subsection \<open>start and stop\<close>

definition set_id :: "nat \<Rightarrow> string \<Rightarrow> state \<Rightarrow> state" where
  "set_id n v st = st\<lparr>elems := (elems st)(n := (elems st n)\<lparr>id_attr := v\<rparr>)\<rparr>"

text \<open>
  \<open>this.updateMousePosition.bind(this)\<close> makes a new function object at every call, so each
  start registers a listener of its own; the reference is drawn from the same allocator.
\<close>

definition start :: "(number \<Rightarrow> string) \<Rightarrow> state \<Rightarrow> result" where
  "start ns st =
     (case body st of
        None \<Rightarrow> (None, st)
      | Some _ \<Rightarrow>
          (let sheet = next_ref st;
               st1 = (createElement ''style'' st)\<lparr>style := Some sheet\<rparr>;
               c = next_ref st1;
               st2 = set_id c ''vencord-mouse-overlay'' ((createElement ''div'' st1)\<lparr>cursor := Some c\<rparr>);
               st3 = appendChild_head sheet st2
           in case appendChild_body c st3 of
                (Some err, st4) \<Rightarrow> (Some err, st4)
              | (None, st4) \<Rightarrow>
                  (case updateStyles ns st4 of
                     (Some err, st5) \<Rightarrow> (Some err, st5)
                   | (None, st5) \<Rightarrow>
                       (let h = next_ref st5;
                            st6 = st5\<lparr>boundUpdateMousePosition := Some h, next_ref := Suc h\<rparr>
                        in (None, st6\<lparr>listeners := listeners st6 @ [h]\<rparr>)))))"

text \<open>\<open>dots.forEach(dot => dot?.parentNode?.removeChild(dot))\<close>\<close>

fun remove_each :: "nat list \<Rightarrow> state \<Rightarrow> state" where
  "remove_each [] st = st"
| "remove_each (dot # dots) st = remove_each dots (remove_if_attached dot st)"

definition stop :: "state \<Rightarrow> result" where
  "stop st =
     (let st1 = (case boundUpdateMousePosition st of
                   None \<Rightarrow> st
                 | Some h \<Rightarrow> st\<lparr>listeners := removeAll h (listeners st),
                                boundUpdateMousePosition := None\<rparr>);
          st2 = (case style st1 of None \<Rightarrow> st1 | Some sheet \<Rightarrow> remove_if_attached sheet st1);
          st3 = (case cursor st2 of None \<Rightarrow> st2 | Some c \<Rightarrow> remove_if_attached c st2);
          st4 = remove_each (trail st3) st3
      in (None, st4\<lparr>trail := [], style := None, cursor := None\<rparr>))"

subsection \<open>The option schema\<close>

datatype option_key = CursorStyle | CursorSize | CursorColor | TrailEnabled | TrailColor | TrailLength

text \<open>
  The callbacks are ordinary functions, \<open>function() { this.updateStyles(); }\<close>, stored in
  the option objects: \<open>this\<close> is whatever the caller makes the receiver of the call. The
  plugin object has the method \<open>updateStyles\<close>; an option object has no such property, so
  calling it there raises, and so does reading the property of an undefined receiver.
\<close>

datatype receiver = PluginObject | OptionObject | Undefined

definition onChange_function :: "receiver \<Rightarrow> (number \<Rightarrow> string) \<Rightarrow> state \<Rightarrow> result" where
  "onChange_function this ns st =
     (case this of
        PluginObject \<Rightarrow> updateStyles ns st
      | OptionObject \<Rightarrow> (Some TypeError, st)
      | Undefined \<Rightarrow> (Some TypeError, st))"

text \<open>The \<open>onChange\<close> entry of each option of \<open>options\<close>, where it has one.\<close>

definition onChange ::
    "option_key \<Rightarrow> (receiver \<Rightarrow> (number \<Rightarrow> string) \<Rightarrow> state \<Rightarrow> result) option" where
  "onChange k =
     (case k of
        CursorStyle \<Rightarrow> Some onChange_function
      | CursorSize \<Rightarrow> Some onChange_function
      | CursorColor \<Rightarrow> Some onChange_function
      | TrailEnabled \<Rightarrow> None
      | TrailColor \<Rightarrow> Some onChange_function
      | TrailLength \<Rightarrow> None)"

text \<open>A change made in the settings panel: the option and its new value.\<close>

datatype setting_change =
    SetCursorStyle "string option"
  | SetCursorSize "number option"
  | SetCursorColor "string option"
  | SetTrailEnabled "bool option"
  | SetTrailColor "string option"
  | SetTrailLength "number option"

fun key_of :: "setting_change \<Rightarrow> option_key" where
  "key_of (SetCursorStyle _) = CursorStyle"
| "key_of (SetCursorSize _) = CursorSize"
| "key_of (SetCursorColor _) = CursorColor"
| "key_of (SetTrailEnabled _) = TrailEnabled"
| "key_of (SetTrailColor _) = TrailColor"
| "key_of (SetTrailLength _) = TrailLength"

fun write_setting :: "setting_change \<Rightarrow> stored_settings \<Rightarrow> stored_settings" where
  "write_setting (SetCursorStyle v) s = s\<lparr>cursorStyle := v\<rparr>"
| "write_setting (SetCursorSize v) s = s\<lparr>cursorSize := v\<rparr>"
| "write_setting (SetCursorColor v) s = s\<lparr>cursorColor := v\<rparr>"
| "write_setting (SetTrailEnabled v) s = s\<lparr>trailEnabled := v\<rparr>"
| "write_setting (SetTrailColor v) s = s\<lparr>trailColor := v\<rparr>"
| "write_setting (SetTrailLength v) s = s\<lparr>trailLength := v\<rparr>"

definition no_settings :: stored_settings where
  "no_settings = \<lparr>cursorSize = None, cursorColor = None, trailEnabled = None,
     trailColor = None, trailLength = None, cursorStyle = None\<rparr>"

text \<open>
  Modelled from the spec: the code of the host framework that reacts to a changed option is
  not in the repository. By the specification the plugin registers a schema of options
  ``with default values and per-option change callbacks'', and the settings store is read
  synchronously: the host stores the new value, then calls the option's \<open>onChange\<close> if it
  has one. With which receiver the host makes that call the specification does not say; it is
  the parameter \<open>this\<close>.
\<close>

definition settings_changed ::
    "receiver \<Rightarrow> (number \<Rightarrow> string) \<Rightarrow> setting_change \<Rightarrow> state \<Rightarrow> result" where
  "settings_changed this ns u st =
     (let st' = st\<lparr>settings := Some (write_setting u (nullish (settings st) no_settings))\<rparr>
      in case onChange (key_of u) of
           None \<Rightarrow> (None, st')
         | Some callback \<Rightarrow> callback this ns st')"

subsection \<open>The event loop\<close>

text \<open>
  A \<open>mousemove\<close> event runs every registered listener in turn; all of them are bound copies
  of \<open>updateMousePosition\<close>. An exception inside a listener is reported and does not stop the
  others: the first one is returned.
\<close>

fun dispatch_mousemove :: "(number \<Rightarrow> string) \<Rightarrow> MouseEvent \<Rightarrow> nat list \<Rightarrow> state \<Rightarrow> result" where
  "dispatch_mousemove ns e [] st = (None, st)"
| "dispatch_mousemove ns e (h # hs) st =
     (case updateMousePosition ns e st of
        (err, st') \<Rightarrow> (case dispatch_mousemove ns e hs st' of
                        (err', st'') \<Rightarrow> (if err = None then err' else err, st'')))"

text \<open>
  Time passes: the clock moves on by \<open>dt\<close> milliseconds and every timer that is due by then
  runs its callback, in the order they were set.
\<close>

fun run_timers :: "nat list \<Rightarrow> state \<Rightarrow> state" where
  "run_timers [] st = st"
| "run_timers (dot # dots) st = run_timers dots (snd (dot_timeout dot st))"

definition elapse :: "nat \<Rightarrow> state \<Rightarrow> state" where
  "elapse dt st =
     (let now = clock st + dt;
          due = filter (\<lambda>t. fst t \<le> now) (timers st);
          later = filter (\<lambda>t. \<not> fst t \<le> now) (timers st)
      in run_timers (map snd due) (st\<lparr>clock := now, timers := later\<rparr>))"

datatype event =
    Start
  | Stop
  | MouseMove MouseEvent
  | Elapse nat
  | Change receiver setting_change

fun step :: "(number \<Rightarrow> string) \<Rightarrow> event \<Rightarrow> state \<Rightarrow> result" where
  "step ns Start st = start ns st"
| "step ns Stop st = stop st"
| "step ns (MouseMove e) st = dispatch_mousemove ns e (listeners st) st"
| "step ns (Elapse dt) st = (None, elapse dt st)"
| "step ns (Change this u) st = settings_changed this ns u st"

text \<open>
  The events of a run are handled one after the other. An exception would end the handler that
  raised it and be reported by the host; the run goes on from the state as it then is.
\<close>

fun run :: "(number \<Rightarrow> string) \<Rightarrow> state \<Rightarrow> event list \<Rightarrow> state" where
  "run ns st [] = st"
| "run ns st (ev # evs) = run ns (snd (step ns ev st)) evs"

text \<open>The state when the script has been loaded: nothing created, nothing registered.\<close>

definition loaded :: "stored_settings option \<Rightarrow> bool \<Rightarrow> state" where
  "loaded cfg has_body =
     \<lparr>style = None, cursor = None, trail = [], boundUpdateMousePosition = None,
      settings = cfg, elems = (\<lambda>_. blank []), head = [],
      body = (if has_body then Some [] else None), listeners = [], timers = [],
      clock = 0, next_ref = 0\<rparr>"

subsection \<open>What is on the surface\<close>

definition is_trail_dot :: "state \<Rightarrow> nat \<Rightarrow> bool" where
  "is_trail_dot st n = (className (elems st n) = ''mouse-trail'')"

definition trail_dots :: "state \<Rightarrow> nat list" where
  "trail_dots st = filter (is_trail_dot st) (children_of_body st)"

definition overlay_nodes :: "state \<Rightarrow> nat list" where
  "overlay_nodes st = filter (\<lambda>n. id_attr (elems st n) = ''vencord-mouse-overlay'') (children_of_body st)"

definition stylesheet_nodes :: "state \<Rightarrow> nat list" where
  "stylesheet_nodes st = filter (\<lambda>n. tagName (elems st n) = ''style'') (head st)"

text \<open>The value that the overflow check of the next pointer move compares the queue with.\<close>

definition trail_limit :: "state \<Rightarrow> number" where
  "trail_limit st =
     (case settings st of
        None \<Rightarrow> trailLength defaultSettings
      | Some s \<Rightarrow> nullish (trailLength s) (trailLength defaultSettings))"

subsection \<open>Conditions on a sequence of events\<close>

text \<open>No change of \<open>trailLength\<close> sets it below the length the queue has at that moment.\<close>

fun limit_not_cut :: "state \<Rightarrow> event \<Rightarrow> bool" where
  "limit_not_cut st (Change this (SetTrailLength v)) =
     (of_nat (length (trail st)) \<le> nullish v (trailLength defaultSettings))"
| "limit_not_cut st _ = True"

fun limit_kept :: "(number \<Rightarrow> string) \<Rightarrow> state \<Rightarrow> event list \<Rightarrow> bool" where
  "limit_kept ns st [] = True"
| "limit_kept ns st (ev # evs) = (limit_not_cut st ev \<and> limit_kept ns (snd (step ns ev st)) evs)"

text \<open>The host pairs start with stop: start is called only when no listener is held.\<close>

fun start_allowed :: "state \<Rightarrow> event \<Rightarrow> bool" where
  "start_allowed st Start = (boundUpdateMousePosition st = None)"
| "start_allowed st _ = True"

fun paired :: "(number \<Rightarrow> string) \<Rightarrow> state \<Rightarrow> event list \<Rightarrow> bool" where
  "paired ns st [] = True"
| "paired ns st (ev # evs) = (start_allowed st ev \<and> paired ns (snd (step ns ev st)) evs)"

subsection \<open>Invariants of the reachable states\<close>

text \<open>Every reference in use was handed out by the allocator.\<close>

definition refs_of :: "state \<Rightarrow> nat set" where
  "refs_of st =
     set (head st) \<union> set (children_of_body st) \<union> set (trail st) \<union> set (listeners st) \<union>
     snd ` set (timers st) \<union> set_option (style st) \<union> set_option (cursor st) \<union>
     set_option (boundUpdateMousePosition st)"

definition allocated :: "state \<Rightarrow> bool" where
  "allocated st = (\<forall>n \<in> refs_of st. n < next_ref st)"

text \<open>The dots on the surface are the queue, in spawn order; an overlay reference implies a body.\<close>

definition queue_on_surface :: "state \<Rightarrow> bool" where
  "queue_on_surface st =
     (trail_dots st = trail st \<and> sorted_wrt (<) (trail st) \<and>
      (cursor st \<noteq> None \<longrightarrow> body st \<noteq> None))"

text \<open>Every queued dot has a timer that is still to fire.\<close>

definition timers_pending :: "state \<Rightarrow> bool" where
  "timers_pending st = (\<forall>n \<in> set (trail st). \<exists>t \<in> set (timers st). snd t = n \<and> clock st < fst t)"

text \<open>Nothing of an earlier start is left behind: every node and listener is one the plugin refers to.\<close>

definition tidy :: "state \<Rightarrow> bool" where
  "tidy st =
     ((\<forall>n \<in> set (children_of_body st). is_trail_dot st n \<or> cursor st = Some n) \<and>
      (\<forall>n \<in> set (head st). style st = Some n) \<and>
      (\<forall>h \<in> set (listeners st). boundUpdateMousePosition st = Some h) \<and>
      (boundUpdateMousePosition st = None \<longrightarrow> style st = None \<and> cursor st = None))"

text \<open>A timer belongs to a dot, and no dot was ever put under \<open>document.head\<close>.\<close>

definition timers_for_dots :: "state \<Rightarrow> bool" where
  "timers_for_dots st =
     ((\<forall>t \<in> set (timers st). is_trail_dot st (snd t)) \<and>
      (\<forall>n \<in> set (head st). \<not> is_trail_dot st n))"

definition sound :: "state \<Rightarrow> bool" where
  "sound st = (allocated st \<and> queue_on_surface st \<and> timers_pending st \<and> timers_for_dots st)"

text \<open>The queue is within the limit that the next overflow check will use.\<close>

definition within_limit :: "state \<Rightarrow> bool" where
  "within_limit st = (of_nat (length (trail st)) \<le> trail_limit st)"

text \<open>Whether a pointer move spawns a dot: the stored \<open>trailEnabled\<close> is true.\<close>

definition trail_enabled :: "state \<Rightarrow> bool" where
  "trail_enabled st = (case settings st of None \<Rightarrow> False | Some s \<Rightarrow> truthy (trailEnabled s))"

subsection \<open>Closed forms of the operations\<close>

text \<open>The elements that the operations write, and the nodes that stop leaves in place.\<close>

definition spawned_dot :: "(number \<Rightarrow> string) \<Rightarrow> MouseEvent \<Rightarrow> number \<Rightarrow> element" where
  "spawned_dot ns e csize =
     (blank ''div'')\<lparr>className := ''mouse-trail'',
        style_left := ns (clientX e - csize / 4) @ ''px'',
        style_top := ns (clientY e - csize / 4) @ ''px''\<rparr>"

definition moved_overlay :: "(number \<Rightarrow> string) \<Rightarrow> MouseEvent \<Rightarrow> number \<Rightarrow> element \<Rightarrow> element" where
  "moved_overlay ns e csize el =
     el\<lparr>style_transform := ''translate('' @ ns (clientX e - csize / 2) @ ''px, '' @
                                           ns (clientY e - csize / 2) @ ''px)''\<rparr>"

definition sheet_element :: "(number \<Rightarrow> string) \<Rightarrow> stored_settings option \<Rightarrow> element" where
  "sheet_element ns cfg =
     (case cfg of
        None \<Rightarrow> blank ''style''
      | Some s \<Rightarrow> (blank ''style'')\<lparr>textContent :=
                    stylesheet ns
                     (nullish (cursorSize s) (cursorSize defaultSettings))
                     (nullish (cursorColor s) (cursorColor defaultSettings))
                     (nullish (trailColor s) (trailColor defaultSettings))
                     (nullish (cursorStyle s) (cursorStyle defaultSettings))\<rparr>)"

definition kept_by_stop :: "state \<Rightarrow> nat \<Rightarrow> bool" where
  "kept_by_stop st n = (Some n \<noteq> style st \<and> Some n \<noteq> cursor st \<and> n \<notin> set (trail st))"

subsection \<open>A number format to run the model with\<close>

text \<open>
  Decimal notation with at most 17 fractional digits: what the runtime prints for the
  integers and the short decimal fractions that the examples below format.
\<close>

definition digit_char :: "nat \<Rightarrow> char" where
  "digit_char d = ''0123456789'' ! d"

fun decimal_nat :: "nat \<Rightarrow> string" where
  "decimal_nat n = (if n < 10 then [digit_char n] else decimal_nat (n div 10) @ [digit_char (n mod 10)])"

fun decimal_frac :: "nat \<Rightarrow> rat \<Rightarrow> string" where
  "decimal_frac 0 r = []"
| "decimal_frac (Suc k) r =
     (if r = 0 then []
      else (let d = nat \<lfloor>r * 10\<rfloor> in digit_char d # decimal_frac k (r * 10 - of_nat d)))"

definition decimal :: "number \<Rightarrow> string" where
  "decimal r =
     (let a = \<bar>r\<bar>; whole = nat \<lfloor>a\<rfloor>; rest = a - of_nat whole
      in (if r < 0 then ''-'' else []) @ decimal_nat whole @
         (if rest = 0 then [] else ''.'' @ decimal_frac 17 rest))"

subsection \<open>Sample settings and states\<close>

definition custom_red :: stored_settings where
  "custom_red = \<lparr>cursorSize = Some 20, cursorColor = Some ''#ff0000'', trailEnabled = Some True,
     trailColor = None, trailLength = Some 3, cursorStyle = Some ''custom''\<rparr>"

definition started :: state where
  "started = run decimal (loaded (Some custom_red) True) [Start]"

text \<open>
  What a pointer move may change when it spawns no dot: nothing but the elements, of them
  nothing but \<open>style.transform\<close>, and that of the overlay only.
\<close>

definition only_overlay_moved :: "state \<Rightarrow> state \<Rightarrow> bool" where
  "only_overlay_moved st st' =
     (st'\<lparr>elems := elems st\<rparr> = st \<and>
      (\<forall>n. (elems st' n)\<lparr>style_transform := style_transform (elems st n)\<rparr> = elems st n) \<and>
      (\<forall>n. cursor st \<noteq> Some n \<longrightarrow> elems st' n = elems st n))"

text \<open>Sample runs: with the trail switched off; a move followed by stop; the limit lowered
  under a full queue; and a session in which the limit is lowered to the queue length and the
  pointer moves on.\<close>

definition untrailed :: state where
  "untrailed = run decimal (loaded (Some (custom_red\<lparr>trailEnabled := Some False\<rparr>)) True) [Start]"

definition after_stop :: state where
  "after_stop = run decimal (loaded (Some custom_red) True)
     [Start, MouseMove \<lparr>clientX = 100, clientY = 100\<rparr>, Stop]"

definition oversized :: state where
  "oversized = run decimal (loaded (Some custom_red) True)
     [Start, MouseMove \<lparr>clientX = 10, clientY = 10\<rparr>, MouseMove \<lparr>clientX = 20, clientY = 10\<rparr>,
      MouseMove \<lparr>clientX = 30, clientY = 10\<rparr>, Change PluginObject (SetTrailLength (Some 1)),
      MouseMove \<lparr>clientX = 40, clientY = 10\<rparr>]"

definition steady :: "event list" where
  "steady = [Start, MouseMove \<lparr>clientX = 10, clientY = 10\<rparr>, MouseMove \<lparr>clientX = 20, clientY = 10\<rparr>,
      Change PluginObject (SetTrailLength (Some 2)), Elapse 40,
      MouseMove \<lparr>clientX = 30, clientY = 10\<rparr>, MouseMove \<lparr>clientX = 40, clientY = 10\<rparr>]"

text \<open>Nothing was ever started: no reference held, nothing queued, registered or scheduled.\<close>

definition idle :: "state \<Rightarrow> bool" where
  "idle st = (style st = None \<and> cursor st = None \<and> trail st = [] \<and>
              boundUpdateMousePosition st = None \<and> listeners st = [] \<and> timers st = [])"

text \<open>More sample inputs: four pointer moves; a session that stops and starts again.\<close>

definition four_moves :: "MouseEvent list" where
  "four_moves = [\<lparr>clientX = 10, clientY = 10\<rparr>, \<lparr>clientX = 20, clientY = 10\<rparr>,
                 \<lparr>clientX = 30, clientY = 10\<rparr>, \<lparr>clientX = 40, clientY = 10\<rparr>]"

definition session :: "event list" where
  "session = [Start, MouseMove \<lparr>clientX = 10, clientY = 10\<rparr>, MouseMove \<lparr>clientX = 20, clientY = 10\<rparr>,
      Elapse 30, Stop, Start, MouseMove \<lparr>clientX = 30, clientY = 10\<rparr>]"

text \<open>
  How one state follows another. After any event: references and the clock only grow, a node
  that exists keeps its class, and a new timer is for a new node. After a pointer move,
  moreover: the clock stands still, a new timer is due 100 ms from now, and a newly queued dot
  is a new node.
\<close>

definition extends :: "state \<Rightarrow> state \<Rightarrow> bool" where
  "extends st st' =
     (next_ref st \<le> next_ref st' \<and> clock st \<le> clock st' \<and>
      (\<forall>n < next_ref st. is_trail_dot st' n = is_trail_dot st n) \<and>
      (\<forall>t \<in> set (timers st'). t \<in> set (timers st) \<or> next_ref st \<le> snd t))"

definition spawns_only :: "state \<Rightarrow> state \<Rightarrow> bool" where
  "spawns_only st st' =
     (next_ref st \<le> next_ref st' \<and> clock st' = clock st \<and>
      (\<forall>n < next_ref st. is_trail_dot st' n = is_trail_dot st n) \<and>
      (\<forall>t \<in> set (timers st'). t \<in> set (timers st) \<or> (next_ref st \<le> snd t \<and> fst t = clock st + 100)) \<and>
      (\<forall>n \<in> set (trail st'). n \<in> set (trail st) \<or> next_ref st \<le> n))"

text \<open>The test of the specification: one pointer move under \<open>trailLength = 100\<close>.\<close>

definition patient :: state where
  "patient = run decimal (loaded (Some (custom_red\<lparr>trailLength := Some 100\<rparr>)) True) [Start]"

section \<open>Properties\<close>

subsection \<open>The operations in closed form\<close>

lemma remove_if_attached_detach: "remove_if_attached n st = detach n st"
  by (cases "body st") (simp_all add: remove_if_attached_def has_parent_def detach_def children_of_body_def)

lemma filter_removeAll: "filter P (removeAll d xs) = filter (\<lambda>n. n \<noteq> d \<and> P n) xs"
  by (induction xs) auto

lemma removeAll_as_filter: "removeAll d xs = filter (\<lambda>n. n \<noteq> d) xs"
  by (induction xs) auto

lemma dot_timeout_eq:
  "dot_timeout d st =
     (None, st\<lparr>head := removeAll d (head st), body := map_option (removeAll d) (body st),
               trail := removeAll d (trail st)\<rparr>)"
  by (simp add: dot_timeout_def remove_if_attached_detach detach_def removeAll_as_filter)

lemma run_timers_eq:
  "run_timers ds st =
     st\<lparr>head := filter (\<lambda>n. n \<notin> set ds) (head st),
        body := map_option (filter (\<lambda>n. n \<notin> set ds)) (body st),
        trail := filter (\<lambda>n. n \<notin> set ds) (trail st)\<rparr>"
proof (induction ds arbitrary: st)
  case Nil
  show ?case by (simp add: option.map_ident)
next
  case (Cons d ds)
  show ?case
    by (cases "body st") (simp_all add: Cons dot_timeout_eq filter_removeAll)
qed

lemma remove_each_eq: 
  "remove_each ds st =
     st\<lparr>head := filter (\<lambda>n. n \<notin> set ds) (head st),
        body := map_option (filter (\<lambda>n. n \<notin> set ds)) (body st)\<rparr>"
proof (induction ds arbitrary: st)
  case Nil
  show ?case by (simp add: option.map_ident)
next
  case (Cons d ds)
  show ?case
    by (cases "body st") (simp_all add: Cons remove_if_attached_detach detach_def filter_removeAll)
qed

lemma stop_eq:
  "stop st =
     (None, st\<lparr>listeners := (case boundUpdateMousePosition st of None \<Rightarrow> listeners st
                               | Some h \<Rightarrow> removeAll h (listeners st)),
               boundUpdateMousePosition := None,
               head := filter (kept_by_stop st) (head st),
               body := map_option (filter (kept_by_stop st)) (body st),
               trail := [], style := None, cursor := None\<rparr>)"
  by (cases "boundUpdateMousePosition st"; cases "style st"; cases "cursor st"; cases "body st")
     (auto simp add: stop_def remove_each_eq remove_if_attached_detach detach_def filter_removeAll kept_by_stop_def
       cong: filter_cong)


lemma allocatedD:
  assumes "allocated st" and "next_ref st \<le> m"
  shows "m \<notin> set (head st)" "m \<notin> set (children_of_body st)"
    "m \<notin> set (trail st)" "m \<notin> set (listeners st)"
    "cursor st \<noteq> Some m" "style st \<noteq> Some m" "boundUpdateMousePosition st \<noteq> Some m"
    "\<And>t. t \<in> set (timers st) \<Longrightarrow> snd t \<noteq> m"
proof -
  have "m \<notin> refs_of st"
    using assms by (auto simp: allocated_def)
  then show "m \<notin> set (head st)" "m \<notin> set (children_of_body st)"
    "m \<notin> set (trail st)" "m \<notin> set (listeners st)"
    "cursor st \<noteq> Some m" "style st \<noteq> Some m" "boundUpdateMousePosition st \<noteq> Some m"
    "\<And>t. t \<in> set (timers st) \<Longrightarrow> snd t \<noteq> m"
    by (auto simp: refs_of_def)
qed

lemma move_without_trail:
  assumes "cursor st = Some c" "settings st = Some s" "\<not> truthy (trailEnabled s)"
  shows "updateMousePosition ns e st =
     (None, st\<lparr>elems := (elems st)(c := moved_overlay ns e (nullish (cursorSize s) (cursorSize defaultSettings)) (elems st c))\<rparr>)"
  using assms by (simp add: updateMousePosition_def set_transform_def moved_overlay_def Let_def)

lemma move_ignored:
  assumes "cursor st = None \<or> settings st = None"
  shows "updateMousePosition ns e st = (None, st)"
  using assms by (auto simp add: updateMousePosition_def split: option.splits)

lemma move_with_trail:
  assumes "cursor st = Some c" "settings st = Some s" "truthy (trailEnabled s)"
    and "body st = Some kids" and "allocated st"
  defines "d \<equiv> next_ref st"
  defines "q \<equiv> trail st @ [next_ref st]"
  defines "over \<equiv> nullish (trailLength s) (trailLength defaultSettings) < of_nat (length (trail st @ [next_ref st]))"
  defines "csize \<equiv> nullish (cursorSize s) (cursorSize defaultSettings)"
  shows "updateMousePosition ns e st =
     (None, st\<lparr>elems := (elems st)(c := moved_overlay ns e csize (elems st c), d := spawned_dot ns e csize),
               next_ref := Suc d,
               head := (if over then removeAll (hd q) (head st) else head st),
               body := Some (if over then removeAll (hd q) (kids @ [d]) else kids @ [d]),
               trail := (if over then tl q else q),
               timers := timers st @ [(clock st + 100, d)]\<rparr>)"
proof -
  have fresh: "d \<notin> set kids" "d \<notin> set (head st)"
    using allocatedD[OF \<open>allocated st\<close>, of d] assms(4) by (simp_all add: d_def children_of_body_def)
  show ?thesis
    using assms(1-4) fresh
    by (simp add: updateMousePosition_def set_transform_def moved_overlay_def spawned_dot_def
        init_dot_def createElement_def appendChild_body_def detach_def children_of_body_def
        evict_oldest_def remove_if_attached_detach setTimeout_def Let_def
        d_def q_def over_def csize_def split: list.splits)
qed


lemma elapse_eq:
  "elapse dt st =
     st\<lparr>clock := clock st + dt,
        timers := filter (\<lambda>t. \<not> fst t \<le> clock st + dt) (timers st),
        head := filter (\<lambda>n. n \<notin> snd ` {t \<in> set (timers st). fst t \<le> clock st + dt}) (head st),
        body := map_option (filter (\<lambda>n. n \<notin> snd ` {t \<in> set (timers st). fst t \<le> clock st + dt})) (body st),
        trail := filter (\<lambda>n. n \<notin> snd ` {t \<in> set (timers st). fst t \<le> clock st + dt}) (trail st)\<rparr>"
  by (simp add: elapse_def Let_def run_timers_eq)

lemma start_without_body: "body st = None \<Longrightarrow> start ns st = (None, st)"
  by (simp add: start_def)

lemma start_eq:
  assumes "body st = Some kids" and "allocated st"
  defines "n \<equiv> next_ref st"
  shows "start ns st =
     (None, st\<lparr>style := Some n, cursor := Some (Suc n),
               boundUpdateMousePosition := Some (Suc (Suc n)),
               elems := (elems st)(n := sheet_element ns (settings st),
                                   Suc n := (blank ''div'')\<lparr>id_attr := ''vencord-mouse-overlay''\<rparr>),
               next_ref := Suc (Suc (Suc n)),
               head := head st @ [n],
               body := Some (kids @ [Suc n]),
               listeners := listeners st @ [Suc (Suc n)]\<rparr>)"
proof -
  have fresh: "n \<notin> set kids" "n \<notin> set (head st)" "Suc n \<notin> set kids" "Suc n \<notin> set (head st)"
    using allocatedD[OF \<open>allocated st\<close>, of n] allocatedD[OF \<open>allocated st\<close>, of "Suc n"] assms(1)
    by (simp_all add: n_def children_of_body_def)
  show ?thesis
    using assms(1) fresh
    by (cases "settings st")
       (simp_all add: start_def createElement_def set_id_def appendChild_head_def appendChild_body_def
        detach_def children_of_body_def updateStyles_def set_textContent_def sheet_element_def
        Let_def n_def fun_upd_twist)
qed

subsection \<open>The invariant of the reachable states\<close>

lemma removeAll_hd_distinct: "distinct xs \<Longrightarrow> xs \<noteq> [] \<Longrightarrow> removeAll (hd xs) xs = tl xs"
  by (cases xs) simp_all

lemma removeAll_filter_commute: "removeAll d (filter P xs) = filter P (removeAll d xs)"
  by (induction xs) auto

lemma sorted_wrt_less_tl: "sorted_wrt (<) xs \<Longrightarrow> sorted_wrt (<) (tl xs)"
  by (cases xs) simp_all

lemma sorted_wrt_less_distinct: "sorted_wrt (<) (xs :: nat list) \<Longrightarrow> distinct xs"
  by (simp add: strict_sorted_iff)

text \<open>The three ways a pointer move can go in a sound state.\<close>

lemma move_cases:
  assumes "sound st"
  obtains
    (ignored) "cursor st = None \<or> settings st = None" "updateMousePosition ns e st = (None, st)"
  | (moved) c s where "cursor st = Some c" "settings st = Some s" "\<not> truthy (trailEnabled s)"
      "updateMousePosition ns e st =
         (None, st\<lparr>elems := (elems st)(c := moved_overlay ns e (nullish (cursorSize s) (cursorSize defaultSettings)) (elems st c))\<rparr>)"
  | (spawned) c s kids where "cursor st = Some c" "settings st = Some s" "truthy (trailEnabled s)"
      "body st = Some kids"
      "updateMousePosition ns e st =
         (None, st\<lparr>elems := (elems st)(c := moved_overlay ns e (nullish (cursorSize s) (cursorSize defaultSettings)) (elems st c),
                             next_ref st := spawned_dot ns e (nullish (cursorSize s) (cursorSize defaultSettings))),
               next_ref := Suc (next_ref st),
               head := (if nullish (trailLength s) (trailLength defaultSettings) < of_nat (length (trail st @ [next_ref st]))
                        then removeAll (hd (trail st @ [next_ref st])) (head st) else head st),
               body := Some (if nullish (trailLength s) (trailLength defaultSettings) < of_nat (length (trail st @ [next_ref st]))
                        then removeAll (hd (trail st @ [next_ref st])) (kids @ [next_ref st]) else kids @ [next_ref st]),
               trail := (if nullish (trailLength s) (trailLength defaultSettings) < of_nat (length (trail st @ [next_ref st]))
                        then tl (trail st @ [next_ref st]) else trail st @ [next_ref st]),
               timers := timers st @ [(clock st + 100, next_ref st)]\<rparr>)"
proof (cases "cursor st = None \<or> settings st = None")
  case True
  then show ?thesis using ignored[OF True] move_ignored by blast
next
  case False
  then obtain c s where cs: "cursor st = Some c" "settings st = Some s" by auto
  show ?thesis
  proof (cases "truthy (trailEnabled s)")
    case False
    then show ?thesis using moved[OF cs] move_without_trail[OF cs] by blast
  next
    case True
    from assms cs obtain kids where k: "body st = Some kids"
      by (auto simp: sound_def queue_on_surface_def)
    have "allocated st" using assms by (simp add: sound_def)
    from move_with_trail[OF cs True k this] spawned[OF cs True k] show ?thesis by blast
  qed
qed

lemma sound_elems:
  assumes "sound st" and "\<And>n. className (els n) = className (elems st n)"
  shows "sound (st\<lparr>elems := els\<rparr>)"
proof -
  have "is_trail_dot (st\<lparr>elems := els\<rparr>) = is_trail_dot st"
    using assms(2) by (simp add: is_trail_dot_def fun_eq_iff)
  then show ?thesis
    using assms(1)
    by (simp add: sound_def allocated_def refs_of_def queue_on_surface_def timers_pending_def
        timers_for_dots_def trail_dots_def children_of_body_def)
qed

lemma sound_moved:
  assumes "sound st"
  shows "sound (st\<lparr>elems := (elems st)(c := moved_overlay ns e z (elems st c))\<rparr>)"
  by (rule sound_elems[OF assms]) (simp add: moved_overlay_def)

lemma filter_or_absent: "d \<notin> set xs \<Longrightarrow> filter (\<lambda>x. x = d \<or> P x) xs = filter P xs"
  by (induction xs) auto

lemma set_tl_subset: "set (tl xs) \<subseteq> set xs"
  by (cases xs) auto

lemma sound_spawned:
  fixes ns :: "number \<Rightarrow> string" and e :: MouseEvent and z :: number and over :: bool
  assumes "sound st" and "cursor st = Some c" and "body st = Some kids"
  defines "d \<equiv> next_ref st"
  defines "q \<equiv> trail st @ [next_ref st]"
  defines "st' \<equiv> st\<lparr>elems := (elems st)(c := moved_overlay ns e z (elems st c), next_ref st := spawned_dot ns e z),
               next_ref := Suc (next_ref st),
               head := (if over then removeAll (hd q) (head st) else head st),
               body := Some (if over then removeAll (hd q) (kids @ [next_ref st]) else kids @ [next_ref st]),
               trail := (if over then tl q else q),
               timers := timers st @ [(clock st + 100, next_ref st)]\<rparr>"
  shows "sound st'"
proof -
  have al: "allocated st" and qs: "trail_dots st = trail st" and so: "sorted_wrt (<) (trail st)"
    and tp: "timers_pending st" and td: "timers_for_dots st"
    using assms(1) by (simp_all add: sound_def queue_on_surface_def)
  have kids: "children_of_body st = kids" using assms(3) by (simp add: children_of_body_def)
  have fresh: "d \<notin> set kids" "d \<notin> set (trail st)" "c \<noteq> d" "d \<notin> set (head st)"
    using allocatedD[OF al, of d] assms(2) kids by (auto simp: d_def)
  have below: "\<forall>n \<in> set (trail st). n < d"
    using al by (auto simp: allocated_def refs_of_def d_def)
  have tlq: "set (tl q) \<subseteq> set q" by (rule set_tl_subset)
  have setq: "set q = insert d (set (trail st))" by (simp add: q_def d_def)
  have "\<forall>n \<in> refs_of st'. n = d \<or> n \<in> refs_of st"
    using tlq setq kids by (auto simp: st'_def refs_of_def children_of_body_def d_def)
  then have 1: "allocated st'"
    using al by (fastforce simp: allocated_def st'_def d_def)
  have dot: "is_trail_dot st' = (\<lambda>n. n = d \<or> is_trail_dot st n)"
    using fresh by (auto simp add: fun_eq_iff is_trail_dot_def st'_def d_def moved_overlay_def spawned_dot_def)
  have sq: "sorted_wrt (<) q"
    using so below by (simp add: q_def sorted_wrt_append d_def)
  then have dq: "distinct q" by (rule sorted_wrt_less_distinct)
  have fq: "filter (is_trail_dot st') (kids @ [d]) = q"
  proof -
    have "filter (is_trail_dot st') kids = filter (is_trail_dot st) kids"
      using fresh(1) by (simp add: dot filter_or_absent)
    then show ?thesis
      using qs kids by (simp add: dot q_def d_def trail_dots_def)
  qed
  have "trail_dots st' = trail st'"
  proof (cases over)
    case True
    have "trail_dots st' = filter (is_trail_dot st') (removeAll (hd q) (kids @ [d]))"
      using True by (simp add: trail_dots_def children_of_body_def st'_def d_def)
    also have "\<dots> = removeAll (hd q) q"
      by (simp only: removeAll_filter_commute[symmetric] fq)
    also have "\<dots> = tl q"
      using dq by (intro removeAll_hd_distinct) (simp_all add: q_def)
    finally show ?thesis using True by (simp add: st'_def)
  next
    case False
    then show ?thesis using fq by (simp add: trail_dots_def children_of_body_def st'_def d_def)
  qed
  moreover have "sorted_wrt (<) (trail st')"
    using sq sorted_wrt_less_tl[OF sq] by (simp add: st'_def)
  ultimately have 2: "queue_on_surface st'"
    by (simp add: queue_on_surface_def) (simp add: st'_def)
  have "\<exists>t \<in> set (timers st'). snd t = n \<and> clock st' < fst t" if "n \<in> set q" for n
  proof (cases "n = d")
    case True
    then show ?thesis by (simp add: st'_def d_def)
  next
    case False
    with that have "n \<in> set (trail st)" by (simp add: setq)
    with tp obtain t where "t \<in> set (timers st)" "snd t = n" "clock st < fst t"
      by (auto simp: timers_pending_def)
    then show ?thesis by (auto simp: st'_def)
  qed
  moreover have "set (trail st') \<subseteq> set q"
    using tlq by (simp add: st'_def)
  ultimately have 3: "timers_pending st'"
    unfolding timers_pending_def by blast
  have "set (head st') \<subseteq> set (head st)" "set (timers st') = insert (clock st + 100, d) (set (timers st))"
    by (auto simp: st'_def d_def)
  then have 4: "timers_for_dots st'"
    using td fresh(4) unfolding timers_for_dots_def dot by auto
  from 1 2 3 4 show ?thesis by (simp add: sound_def)
qed

lemma sound_updateMousePosition:
  assumes "sound st"
  shows "sound (snd (updateMousePosition ns e st))"
  using assms
proof (cases rule: move_cases[of _ ns e])
  case ignored
  then show ?thesis using assms by simp
next
  case (moved c s)
  then show ?thesis using sound_moved[OF assms] by simp
next
  case (spawned c s kids)
  then show ?thesis using sound_spawned[OF assms spawned(1) spawned(4)] by simp
qed

lemma dispatch_snd [simp]:
  "snd (dispatch_mousemove ns e (h # hs) st) =
     snd (dispatch_mousemove ns e hs (snd (updateMousePosition ns e st)))"
  by (simp split: prod.splits)

lemma sound_dispatch:
  "sound st \<Longrightarrow> sound (snd (dispatch_mousemove ns e hs st))"
  by (induction hs arbitrary: st) (simp_all add: sound_updateMousePosition del: dispatch_mousemove.simps(2))

lemma sound_elapse:
  assumes "sound st"
  shows "sound (elapse dt st)"
proof -
  define due where "due = snd ` {t \<in> set (timers st). fst t \<le> clock st + dt}"
  define st' where "st' = st\<lparr>clock := clock st + dt,
        timers := filter (\<lambda>t. \<not> fst t \<le> clock st + dt) (timers st),
        head := filter (\<lambda>n. n \<notin> due) (head st),
        body := map_option (filter (\<lambda>n. n \<notin> due)) (body st),
        trail := filter (\<lambda>n. n \<notin> due) (trail st)\<rparr>"
  have eq: "elapse dt st = st'" by (simp add: elapse_eq st'_def due_def)
  have al: "allocated st" and qs: "trail_dots st = trail st" and so: "sorted_wrt (<) (trail st)"
    and cb: "cursor st \<noteq> None \<longrightarrow> body st \<noteq> None" and tp: "timers_pending st"
    and td: "timers_for_dots st"
    using assms by (simp_all add: sound_def queue_on_surface_def)
  have "refs_of st' \<subseteq> refs_of st"
    by (cases "body st") (auto simp: refs_of_def st'_def children_of_body_def)
  then have 1: "allocated st'"
    using al by (auto simp: allocated_def st'_def)
  have "trail_dots st' = filter (\<lambda>n. n \<notin> due) (trail_dots st)"
    by (cases "body st") (auto simp: trail_dots_def children_of_body_def st'_def is_trail_dot_def conj_commute)
  then have 2: "queue_on_surface st'"
    using qs so cb by (simp add: queue_on_surface_def) (simp add: st'_def sorted_wrt_filter)
  have 3: "timers_pending st'"
    unfolding timers_pending_def
  proof
    fix n assume "n \<in> set (trail st')"
    then have n: "n \<in> set (trail st)" "n \<notin> due" by (simp_all add: st'_def)
    with tp obtain t where t: "t \<in> set (timers st)" "snd t = n" "clock st < fst t"
      by (auto simp: timers_pending_def)
    with n(2) have late: "\<not> fst t \<le> clock st + dt" by (auto simp: due_def)
    show "\<exists>t \<in> set (timers st'). snd t = n \<and> clock st' < fst t"
      using t late by (intro bexI[of _ t]) (simp_all add: st'_def)
  qed
  have "is_trail_dot st' = is_trail_dot st"
    by (simp add: is_trail_dot_def fun_eq_iff st'_def)
  moreover have "set (head st') \<subseteq> set (head st)" "set (timers st') \<subseteq> set (timers st)"
    by (auto simp: st'_def)
  ultimately have 4: "timers_for_dots st'"
    using td unfolding timers_for_dots_def by auto
  from 1 2 3 4 show ?thesis by (simp add: sound_def eq)
qed

lemma updateStyles_frame:
  "fst (updateStyles ns st) = None \<and>
   snd (updateStyles ns st) = st\<lparr>elems := elems (snd (updateStyles ns st))\<rparr> \<and>
   (\<forall>n. className (elems (snd (updateStyles ns st)) n) = className (elems st n))"
  by (simp add: updateStyles_def set_textContent_def split: option.splits)

lemma sound_updateStyles:
  assumes "sound st"
  shows "sound (snd (updateStyles ns st))"
  using sound_elems[OF assms, of "elems (snd (updateStyles ns st))"] updateStyles_frame[of ns st]
  by simp

lemma sound_settings:
  assumes "sound st"
  shows "sound (st\<lparr>settings := cfg\<rparr>)"
proof -
  have "is_trail_dot (st\<lparr>settings := cfg\<rparr>) = is_trail_dot st"
    by (simp add: is_trail_dot_def fun_eq_iff)
  then show ?thesis
    using assms
    by (simp add: sound_def allocated_def refs_of_def queue_on_surface_def timers_pending_def
        timers_for_dots_def trail_dots_def children_of_body_def)
qed

lemma settings_changed_cases:
  "snd (settings_changed this ns u st) =
     st\<lparr>settings := Some (write_setting u (nullish (settings st) no_settings))\<rparr> \<or>
   snd (settings_changed this ns u st) =
     snd (updateStyles ns (st\<lparr>settings := Some (write_setting u (nullish (settings st) no_settings))\<rparr>))"
  by (cases u; cases this) (simp_all add: settings_changed_def onChange_def onChange_function_def)

lemma sound_settings_changed:
  assumes "sound st"
  shows "sound (snd (settings_changed this ns u st))"
  using sound_settings[OF assms] sound_updateStyles settings_changed_cases[of this ns u st]
  by auto

lemma sound_loaded: "sound (loaded cfg b)"
  by (simp add: sound_def allocated_def refs_of_def queue_on_surface_def timers_pending_def
        timers_for_dots_def trail_dots_def children_of_body_def loaded_def)


lemma sound_start:
  assumes "sound st"
  shows "sound (snd (start ns st))"
proof (cases "body st")
  case None
  then show ?thesis using assms by (simp add: start_without_body)
next
  case (Some kids)
  define n where "n = next_ref st"
  define st' where "st' = st\<lparr>style := Some n, cursor := Some (Suc n),
               boundUpdateMousePosition := Some (Suc (Suc n)),
               elems := (elems st)(n := sheet_element ns (settings st),
                                   Suc n := (blank ''div'')\<lparr>id_attr := ''vencord-mouse-overlay''\<rparr>),
               next_ref := Suc (Suc (Suc n)),
               head := head st @ [n],
               body := Some (kids @ [Suc n]),
               listeners := listeners st @ [Suc (Suc n)]\<rparr>"
  have al: "allocated st" and qs: "trail_dots st = trail st" and so: "sorted_wrt (<) (trail st)"
    and tp: "timers_pending st" and td: "timers_for_dots st"
    using assms by (simp_all add: sound_def queue_on_surface_def)
  have eq: "snd (start ns st) = st'"
    using start_eq[OF Some al, of ns] by (simp add: st'_def n_def)
  have kids: "children_of_body st = kids" using Some by (simp add: children_of_body_def)
  have "\<forall>m \<in> refs_of st'. m \<in> refs_of st \<or> m = n \<or> m = Suc n \<or> m = Suc (Suc n)"
    using kids by (auto simp: refs_of_def st'_def children_of_body_def)
  then have 1: "allocated st'"
    using al by (fastforce simp: allocated_def st'_def n_def)
  have fresh: "n \<notin> set kids" "Suc n \<notin> set kids"
    using allocatedD(2)[OF al, of n] allocatedD(2)[OF al, of "Suc n"] kids by (simp_all add: n_def)
  have sheet: "className (sheet_element ns cfg) = []" for cfg
    by (cases cfg) (simp_all add: sheet_element_def blank_def)
  have "filter (is_trail_dot st') kids = filter (is_trail_dot st) kids"
    using fresh by (intro filter_cong) (auto simp: is_trail_dot_def st'_def)
  moreover have "\<not> is_trail_dot st' (Suc n)"
    by (simp add: is_trail_dot_def st'_def blank_def)
  ultimately have "trail_dots st' = trail st'"
    using qs kids by (simp add: trail_dots_def) (simp add: st'_def children_of_body_def)
  then have 2: "queue_on_surface st'"
    using so by (simp add: queue_on_surface_def) (simp add: st'_def)
  have 3: "timers_pending st'"
    using tp by (simp add: timers_pending_def st'_def)
  have old: "is_trail_dot st' m = is_trail_dot st m" if "m < n" for m
    using that by (simp add: is_trail_dot_def st'_def)
  have "\<forall>t \<in> set (timers st). snd t < n" "\<forall>m \<in> set (head st). m < n"
    using al by (auto simp: allocated_def refs_of_def n_def)
  moreover have "\<not> is_trail_dot st' n"
    by (simp add: is_trail_dot_def st'_def sheet)
  moreover have "timers st' = timers st" "set (head st') = insert n (set (head st))"
    by (simp_all add: st'_def)
  ultimately have 4: "timers_for_dots st'"
    using td old unfolding timers_for_dots_def by auto
  from 1 2 3 4 show ?thesis by (simp add: sound_def eq)
qed

lemma sound_stop:
  assumes "sound st"
  shows "sound (snd (stop st))"
proof -
  define st' where "st' = st\<lparr>listeners := (case boundUpdateMousePosition st of None \<Rightarrow> listeners st
                               | Some h \<Rightarrow> removeAll h (listeners st)),
               boundUpdateMousePosition := None,
               head := filter (kept_by_stop st) (head st),
               body := map_option (filter (kept_by_stop st)) (body st),
               trail := [], style := None, cursor := None\<rparr>"
  have eq: "snd (stop st) = st'" by (simp add: stop_eq st'_def)
  have al: "allocated st" and qs: "trail_dots st = trail st" and td: "timers_for_dots st"
    using assms by (simp_all add: sound_def queue_on_surface_def)
  have "refs_of st' \<subseteq> refs_of st"
    by (cases "body st"; cases "boundUpdateMousePosition st")
       (auto simp: refs_of_def st'_def children_of_body_def)
  then have 1: "allocated st'"
    using al by (auto simp: allocated_def st'_def)
  have "trail_dots st' = filter (kept_by_stop st) (trail_dots st)"
    by (cases "body st") (auto simp: trail_dots_def children_of_body_def st'_def is_trail_dot_def conj_commute)
  also have "\<dots> = []"
    by (simp add: qs kept_by_stop_def)
  finally have 2: "queue_on_surface st'"
    by (simp add: queue_on_surface_def) (simp add: st'_def)
  have 3: "timers_pending st'"
    by (simp add: timers_pending_def st'_def)
  have "is_trail_dot st' = is_trail_dot st"
    by (simp add: is_trail_dot_def fun_eq_iff st'_def)
  moreover have "set (head st') \<subseteq> set (head st)" "timers st' = timers st"
    by (auto simp: st'_def)
  ultimately have 4: "timers_for_dots st'"
    using td unfolding timers_for_dots_def by auto
  from 1 2 3 4 show ?thesis by (simp add: sound_def eq)
qed

lemma sound_step: "sound st \<Longrightarrow> sound (snd (step ns ev st))"
  by (cases ev) (simp_all add: sound_start sound_stop sound_dispatch sound_elapse sound_settings_changed)

lemma sound_run: "sound st \<Longrightarrow> sound (run ns st evs)"
  by (induction evs arbitrary: st) (simp_all add: sound_step)

lemma sound_reachable: "sound (run ns (loaded cfg b) evs)"
  by (simp add: sound_run sound_loaded)

lemma started_eq:
  "started = (loaded (Some custom_red) True)\<lparr>style := Some 0, cursor := Some 1,
               boundUpdateMousePosition := Some 2,
               elems := (\<lambda>_. blank [])(0 := sheet_element decimal (Some custom_red),
                                   1 := (blank ''div'')\<lparr>id_attr := ''vencord-mouse-overlay''\<rparr>),
               next_ref := 3, head := [0], body := Some [1], listeners := [2]\<rparr>"
proof -
  have "allocated (loaded (Some custom_red) True)" using sound_loaded by (simp add: sound_def)
  from start_eq[OF _ this, of "[]" decimal] show ?thesis
    by (simp add: started_def) (simp add: loaded_def numeral_3_eq_3)
qed

subsection \<open>The sample states\<close>

lemma start_loaded:
  "run ns (loaded cfg True) [Start] =
     (loaded cfg True)\<lparr>style := Some 0, cursor := Some 1,
        boundUpdateMousePosition := Some 2,
        elems := (\<lambda>_. blank [])(0 := sheet_element ns cfg,
                               1 := (blank ''div'')\<lparr>id_attr := ''vencord-mouse-overlay''\<rparr>),
        next_ref := 3, head := [0], body := Some [1], listeners := [2]\<rparr>"
proof -
  have "allocated (loaded cfg True)" using sound_loaded by (simp add: sound_def)
  from start_eq[OF _ this, of "[]" ns] show ?thesis
    by simp (simp add: loaded_def numeral_3_eq_3)
qed

lemma untrailed_eq:
  "untrailed = (loaded (Some (custom_red\<lparr>trailEnabled := Some False\<rparr>)) True)\<lparr>style := Some 0, cursor := Some 1,
        boundUpdateMousePosition := Some 2,
        elems := (\<lambda>_. blank [])(0 := sheet_element decimal (Some (custom_red\<lparr>trailEnabled := Some False\<rparr>)),
                               1 := (blank ''div'')\<lparr>id_attr := ''vencord-mouse-overlay''\<rparr>),
        next_ref := 3, head := [0], body := Some [1], listeners := [2]\<rparr>"
  unfolding untrailed_def by (rule start_loaded)

lemmas model_defs = loaded_def start_def stop_def updateMousePosition_def updateStyles_def
  createElement_def set_id_def set_textContent_def set_transform_def init_dot_def
  appendChild_head_def appendChild_body_def detach_def remove_if_attached_def has_parent_def
  children_of_body_def evict_oldest_def setTimeout_def dot_timeout_def elapse_def
  settings_changed_def onChange_def onChange_function_def nullish_def truthy_def defaultSettings_def custom_red_def Let_def

lemma after_stop_fields:
  "timers after_stop = [(100, 3)]" "trail after_stop = []" "head after_stop = []" "body after_stop = Some []"
  by (simp_all add: after_stop_def model_defs)

subsection \<open>Pointer moves that spawn nothing; timers of absent dots\<close>

lemma only_overlay_moved_refl: "only_overlay_moved st st"
  by (simp add: only_overlay_moved_def)

lemma only_overlay_moved_fields:
  assumes "only_overlay_moved st st'"
  shows "cursor st' = cursor st" "settings st' = settings st" "trail st' = trail st"
    "body st' = body st" "listeners st' = listeners st" "head st' = head st" "timers st' = timers st"
    "className (elems st' n) = className (elems st n)"
proof -
  have eq: "st'\<lparr>elems := elems st\<rparr> = st" using assms by (simp add: only_overlay_moved_def)
  have "cursor (st'\<lparr>elems := elems st\<rparr>) = cursor st" "settings (st'\<lparr>elems := elems st\<rparr>) = settings st"
    "trail (st'\<lparr>elems := elems st\<rparr>) = trail st" "body (st'\<lparr>elems := elems st\<rparr>) = body st"
    "listeners (st'\<lparr>elems := elems st\<rparr>) = listeners st" "head (st'\<lparr>elems := elems st\<rparr>) = head st"
    "timers (st'\<lparr>elems := elems st\<rparr>) = timers st"
    by (simp_all only: eq)
  then show "cursor st' = cursor st" "settings st' = settings st" "trail st' = trail st"
    "body st' = body st" "listeners st' = listeners st" "head st' = head st" "timers st' = timers st"
    by simp_all
  have "className ((elems st' n)\<lparr>style_transform := style_transform (elems st n)\<rparr>) = className (elems st n)"
    using assms by (simp only: only_overlay_moved_def)
  then show "className (elems st' n) = className (elems st n)" by simp
qed

lemma only_overlay_moved_trans:
  assumes "only_overlay_moved a b" and "only_overlay_moved b c"
  shows "only_overlay_moved a c"
proof -
  have b: "b\<lparr>elems := elems a\<rparr> = a" and c: "c\<lparr>elems := elems b\<rparr> = b"
    using assms by (simp_all add: only_overlay_moved_def)
  have cur: "cursor b = cursor a" by (rule only_overlay_moved_fields[OF assms(1)])
  have "c\<lparr>elems := elems a\<rparr> = (c\<lparr>elems := elems b\<rparr>)\<lparr>elems := elems a\<rparr>" by simp
  also have "\<dots> = a" by (simp only: b c)
  finally have 1: "c\<lparr>elems := elems a\<rparr> = a" .
  have 2: "(elems c n)\<lparr>style_transform := style_transform (elems a n)\<rparr> = elems a n" for n
  proof -
    have cb: "(elems c n)\<lparr>style_transform := style_transform (elems b n)\<rparr> = elems b n"
      using assms(2) by (simp add: only_overlay_moved_def)
    have ba: "(elems b n)\<lparr>style_transform := style_transform (elems a n)\<rparr> = elems a n"
      using assms(1) by (simp add: only_overlay_moved_def)
    have "(elems c n)\<lparr>style_transform := style_transform (elems a n)\<rparr> =
          ((elems c n)\<lparr>style_transform := style_transform (elems b n)\<rparr>)\<lparr>style_transform := style_transform (elems a n)\<rparr>"
      by simp
    also have "\<dots> = elems a n" by (simp only: cb ba)
    finally show ?thesis .
  qed
  have 3: "elems c n = elems a n" if "cursor a \<noteq> Some n" for n
    using that assms cur by (simp add: only_overlay_moved_def)
  from 1 2 3 show ?thesis by (simp add: only_overlay_moved_def)
qed

lemma only_overlay_moved_enabled:
  "only_overlay_moved st st' \<Longrightarrow> trail_enabled st' = trail_enabled st"
  by (simp add: trail_enabled_def only_overlay_moved_fields)

lemma move_disabled:
  assumes "\<not> trail_enabled st"
  shows "fst (updateMousePosition ns e st) = None \<and> only_overlay_moved st (snd (updateMousePosition ns e st))"
proof (cases "cursor st = None \<or> settings st = None")
  case True
  then show ?thesis by (simp add: move_ignored only_overlay_moved_refl)
next
  case False
  then obtain c s where cs: "cursor st = Some c" "settings st = Some s" by auto
  with assms have "\<not> truthy (trailEnabled s)" by (simp add: trail_enabled_def)
  from move_without_trail[OF cs this, of ns e] cs show ?thesis
    by (simp add: only_overlay_moved_def moved_overlay_def)
qed

lemma dispatch_disabled:
  "\<not> trail_enabled st \<Longrightarrow>
   fst (dispatch_mousemove ns e hs st) = None \<and> only_overlay_moved st (snd (dispatch_mousemove ns e hs st))"
proof (induction hs arbitrary: st)
  case Nil
  then show ?case by (simp add: only_overlay_moved_refl)
next
  case (Cons h hs)
  define st1 where "st1 = snd (updateMousePosition ns e st)"
  have 1: "fst (updateMousePosition ns e st) = None" "only_overlay_moved st st1"
    using move_disabled[OF Cons.prems, of ns e] by (simp_all add: st1_def)
  then have "\<not> trail_enabled st1" using Cons.prems by (simp add: only_overlay_moved_enabled)
  from Cons.IH[OF this] 1 show ?case
    by (auto simp: st1_def split: prod.splits intro: only_overlay_moved_trans)
qed

lemma moves_disabled:
  "\<not> trail_enabled st \<Longrightarrow> only_overlay_moved st (run ns st (map MouseMove es))"
proof (induction es arbitrary: st)
  case Nil
  then show ?case by (simp add: only_overlay_moved_refl)
next
  case (Cons e es)
  define st1 where "st1 = snd (dispatch_mousemove ns e (listeners st) st)"
  have 1: "only_overlay_moved st st1"
    using dispatch_disabled[OF Cons.prems, of ns e "listeners st"] by (simp add: st1_def)
  then have "\<not> trail_enabled st1" using Cons.prems by (simp add: only_overlay_moved_enabled)
  from Cons.IH[OF this] 1 show ?case
    by (auto simp: st1_def intro: only_overlay_moved_trans)
qed

lemma dot_timeout_absent:
  assumes "d \<notin> set (trail st)" and "\<not> has_parent st d"
  shows "dot_timeout d st = (None, st)"
proof -
  have "d \<notin> set (head st)" "body st = None \<or> (\<exists>kids. body st = Some kids \<and> d \<notin> set kids)"
    using assms(2) by (cases "body st"; simp add: has_parent_def children_of_body_def)+
  then show ?thesis
    using assms(1) by (auto simp: dot_timeout_eq)
qed

subsection \<open>The queue and its limit\<close>

lemma move_frame:
  assumes "sound st"
  shows "fst (updateMousePosition ns e st) = None"
    "settings (snd (updateMousePosition ns e st)) = settings st"
    "cursor (snd (updateMousePosition ns e st)) = cursor st"
    "style (snd (updateMousePosition ns e st)) = style st"
    "boundUpdateMousePosition (snd (updateMousePosition ns e st)) = boundUpdateMousePosition st"
    "listeners (snd (updateMousePosition ns e st)) = listeners st"
    "clock (snd (updateMousePosition ns e st)) = clock st"
    "next_ref st \<le> next_ref (snd (updateMousePosition ns e st))"
  using assms by (cases rule: move_cases[of _ ns e]; simp)+

lemma move_trail:
  assumes "sound st"
  shows "trail (snd (updateMousePosition ns e st)) =
     (if cursor st \<noteq> None \<and> trail_enabled st
      then (if trail_limit st < of_nat (length (trail st @ [next_ref st]))
            then tl (trail st @ [next_ref st]) else trail st @ [next_ref st])
      else trail st)"
  using assms
proof (cases rule: move_cases[of _ ns e])
  case ignored
  then show ?thesis by (auto simp: trail_enabled_def)
next
  case (moved c s)
  then show ?thesis by (simp add: trail_enabled_def)
next
  case (spawned c s kids)
  then show ?thesis by (simp add: trail_limit_def trail_enabled_def)
qed

lemma within_limit_move:
  assumes "sound st" and "within_limit st"
  shows "within_limit (snd (updateMousePosition ns e st))"
proof -
  have "trail_limit (snd (updateMousePosition ns e st)) = trail_limit st"
    by (simp add: trail_limit_def move_frame[OF assms(1)])
  then show ?thesis
    using assms(2) by (simp add: within_limit_def move_trail[OF assms(1)])
qed

lemma within_limit_dispatch:
  "sound st \<Longrightarrow> within_limit st \<Longrightarrow> within_limit (snd (dispatch_mousemove ns e hs st))"
  by (induction hs arbitrary: st)
     (simp_all add: sound_updateMousePosition within_limit_move del: dispatch_mousemove.simps(2))

lemma within_limit_elapse: "within_limit st \<Longrightarrow> within_limit (elapse dt st)"
proof -
  assume a: "within_limit st"
  have "length (trail (elapse dt st)) \<le> length (trail st)" "trail_limit (elapse dt st) = trail_limit st"
    by (simp_all add: elapse_eq trail_limit_def)
  then have "(of_nat (length (trail (elapse dt st))) :: rat) \<le> of_nat (length (trail st))"
    "trail_limit (elapse dt st) = trail_limit st"
    by simp_all
  then show ?thesis using a unfolding within_limit_def by linarith
qed

lemma within_limit_start: "sound st \<Longrightarrow> within_limit st \<Longrightarrow> within_limit (snd (start ns st))"
  by (cases "body st")
     (simp_all add: start_without_body start_eq sound_def within_limit_def trail_limit_def)

lemma within_limit_stop: "within_limit st \<Longrightarrow> within_limit (snd (stop st))"
proof -
  assume a: "within_limit st"
  have "(0::rat) \<le> of_nat (length (trail st))" by simp
  with a have "0 \<le> trail_limit st" unfolding within_limit_def by linarith
  then show ?thesis by (simp add: stop_eq within_limit_def trail_limit_def)
qed

lemma settings_changed_snd:
  "snd (settings_changed this ns u st) =
     st\<lparr>settings := Some (write_setting u (nullish (settings st) no_settings)),
        elems := elems (snd (settings_changed this ns u st))\<rparr>"
proof -
  define st' where "st' = st\<lparr>settings := Some (write_setting u (nullish (settings st) no_settings))\<rparr>"
  have "snd (settings_changed this ns u st) = st' \<or>
        snd (settings_changed this ns u st) = snd (updateStyles ns st')"
    unfolding st'_def by (rule settings_changed_cases)
  moreover have "snd (updateStyles ns st') = st'\<lparr>elems := elems (snd (updateStyles ns st'))\<rparr>"
    using updateStyles_frame[of ns st'] by simp
  ultimately show ?thesis
    by (auto simp: st'_def)
qed

lemma settings_changed_frame:
  "settings (snd (settings_changed this ns u st)) = Some (write_setting u (nullish (settings st) no_settings))"
  "trail (snd (settings_changed this ns u st)) = trail st"
  by (subst settings_changed_snd, simp)+

lemma trail_limit_changed:
  "trail_limit (snd (settings_changed this ns u st)) =
     (case u of SetTrailLength v \<Rightarrow> nullish v (trailLength defaultSettings) | _ \<Rightarrow> trail_limit st)"
  by (cases u; cases "settings st")
     (simp_all add: trail_limit_def settings_changed_frame nullish_def no_settings_def)

lemma within_limit_changed:
  "within_limit st \<Longrightarrow> limit_not_cut st (Change this u) \<Longrightarrow>
   within_limit (snd (settings_changed this ns u st))"
  by (cases u) (simp_all add: within_limit_def trail_limit_changed settings_changed_frame)

lemma within_limit_step:
  "sound st \<Longrightarrow> within_limit st \<Longrightarrow> limit_not_cut st ev \<Longrightarrow> within_limit (snd (step ns ev st))"
  by (cases ev)
     (simp_all add: within_limit_start within_limit_stop within_limit_dispatch within_limit_elapse
        within_limit_changed)

lemma within_limit_run:
  "sound st \<Longrightarrow> within_limit st \<Longrightarrow> limit_kept ns st evs \<Longrightarrow> within_limit (run ns st evs)"
  by (induction evs arbitrary: st) (simp_all add: within_limit_step sound_step)

subsection \<open>Filling the queue\<close>

lemma move_fills:
  assumes "sound st" and "cursor st \<noteq> None" and "trail_enabled st"
    and "trail_limit st = of_nat N" and "length (trail st) \<le> N"
  shows "length (trail (snd (updateMousePosition ns e st))) = min (Suc (length (trail st))) N"
  using assms(2-5) by (simp add: move_trail[OF assms(1)]) 

lemma move_keeps:
  assumes "sound st"
  shows "trail_enabled (snd (updateMousePosition ns e st)) = trail_enabled st"
    "trail_limit (snd (updateMousePosition ns e st)) = trail_limit st"
  by (simp_all add: trail_enabled_def trail_limit_def move_frame[OF assms])

lemma dispatch_frame:
  "sound st \<Longrightarrow>
   cursor (snd (dispatch_mousemove ns e hs st)) = cursor st \<and>
   listeners (snd (dispatch_mousemove ns e hs st)) = listeners st \<and>
   clock (snd (dispatch_mousemove ns e hs st)) = clock st \<and>
   settings (snd (dispatch_mousemove ns e hs st)) = settings st \<and>
   next_ref st \<le> next_ref (snd (dispatch_mousemove ns e hs st))"
proof (induction hs arbitrary: st)
  case Nil
  then show ?case by simp
next
  case (Cons h hs)
  have "next_ref st \<le> next_ref (snd (updateMousePosition ns e st))"
    by (rule move_frame[OF Cons.prems])
  with Cons.IH[OF sound_updateMousePosition[OF Cons.prems, of ns e]] move_frame(2-7)[OF Cons.prems, of ns e]
  show ?case by (simp del: dispatch_mousemove.simps(2))
qed

lemma dispatch_fills:
  "sound st \<Longrightarrow> cursor st \<noteq> None \<Longrightarrow> trail_enabled st \<Longrightarrow> trail_limit st = of_nat N \<Longrightarrow>
   length (trail st) \<le> N \<Longrightarrow>
   length (trail (snd (dispatch_mousemove ns e hs st))) = min (length (trail st) + length hs) N"
proof (induction hs arbitrary: st)
  case Nil
  then show ?case by simp
next
  case (Cons h hs)
  define st1 where "st1 = snd (updateMousePosition ns e st)"
  have 1: "sound st1" "cursor st1 \<noteq> None" "trail_enabled st1" "trail_limit st1 = of_nat N"
    using Cons.prems
    by (simp_all add: st1_def sound_updateMousePosition move_frame move_keeps)
  have 2: "length (trail st1) = min (Suc (length (trail st))) N"
    unfolding st1_def by (rule move_fills) (use Cons.prems in simp_all)
  then have "length (trail st1) \<le> N" by simp
  from Cons.IH[OF 1 this] 2 show ?case
    by (simp add: st1_def del: dispatch_mousemove.simps(2))
qed

lemma moves_fill:
  "sound st \<Longrightarrow> cursor st \<noteq> None \<Longrightarrow> trail_enabled st \<Longrightarrow> trail_limit st = of_nat N \<Longrightarrow>
   length (trail st) \<le> N \<Longrightarrow>
   length (trail (run ns st (map MouseMove es))) =
     min (length (trail st) + length es * length (listeners st)) N"
proof (induction es arbitrary: st)
  case Nil
  then show ?case by simp
next
  case (Cons e es)
  define st1 where "st1 = snd (dispatch_mousemove ns e (listeners st) st)"
  have f: "cursor st1 = cursor st" "listeners st1 = listeners st" "settings st1 = settings st"
    using dispatch_frame[OF Cons.prems(1), of ns e "listeners st"] by (simp_all add: st1_def)
  have 1: "sound st1" "cursor st1 \<noteq> None" "trail_enabled st1" "trail_limit st1 = of_nat N"
    using Cons.prems f by (simp_all add: sound_dispatch trail_enabled_def trail_limit_def) (simp add: st1_def sound_dispatch)
  have 2: "length (trail st1) = min (length (trail st) + length (listeners st)) N"
    unfolding st1_def by (rule dispatch_fills) (use Cons.prems in simp_all)
  then have "length (trail st1) \<le> N" by simp
  from Cons.IH[OF 1 this] 2 f(2) show ?case
    by (simp add: st1_def[symmetric] min_def)
qed

subsection \<open>Stop: idle states and tidy states\<close>

lemma stop_idle:
  assumes "idle st"
  shows "stop st = (None, st)"
proof -
  have k: "filter (kept_by_stop st) xs = xs" for xs
    using assms by (simp add: idle_def kept_by_stop_def)
  have kb: "map_option (filter (kept_by_stop st)) (body st) = body st"
    by (cases "body st") (simp_all add: k)
  have f: "style st = None" "cursor st = None" "trail st = []" "boundUpdateMousePosition st = None"
    using assms by (simp_all add: idle_def)
  have "stop st = (None, st\<lparr>listeners := listeners st, boundUpdateMousePosition := boundUpdateMousePosition st,
      head := head st, body := body st, trail := trail st, style := style st, cursor := cursor st\<rparr>)"
    by (subst stop_eq) (simp add: f k kb)
  then show ?thesis by simp
qed


lemma idle_step:
  assumes "idle st" and "ev \<noteq> Start"
  shows "idle (snd (step ns ev st))"
proof (cases ev)
  case Start
  then show ?thesis using assms(2) by simp
next
  case Stop
  then show ?thesis using assms(1) by (simp add: stop_idle)
next
  case (MouseMove e)
  then show ?thesis using assms(1) by (simp add: idle_def)
next
  case (Elapse dt)
  then show ?thesis using assms(1) by (simp add: idle_def elapse_eq)
next
  case (Change this u)
  have "idle (snd (settings_changed this ns u st))"
    using assms(1) by (subst settings_changed_snd) (simp add: idle_def)
  then show ?thesis using Change by simp
qed

lemma idle_run: "idle st \<Longrightarrow> Start \<notin> set evs \<Longrightarrow> idle (run ns st evs)"
proof (induction evs arbitrary: st)
  case Nil
  then show ?case by simp
next
  case (Cons ev evs)
  then have "idle (snd (step ns ev st))" by (intro idle_step) auto
  with Cons show ?case by simp
qed

lemma idle_loaded: "idle (loaded cfg b)"
  by (simp add: idle_def loaded_def)

lemma is_trail_dot_elems:
  "(\<And>n. className (els n) = className (elems st n)) \<Longrightarrow> is_trail_dot (st\<lparr>elems := els\<rparr>) = is_trail_dot st"
  by (simp add: is_trail_dot_def fun_eq_iff)

lemma tidy_elems:
  assumes "tidy st" and "\<And>n. className (els n) = className (elems st n)"
  shows "tidy (st\<lparr>elems := els\<rparr>)"
  using assms(1) by (simp add: tidy_def is_trail_dot_elems[OF assms(2)] children_of_body_def)

lemma tidy_move:
  assumes "sound st" and "tidy st"
  shows "tidy (snd (updateMousePosition ns e st))"
  using assms(1)
proof (cases rule: move_cases[of _ ns e])
  case ignored
  then show ?thesis using assms(2) by simp
next
  case (moved c s)
  then show ?thesis using tidy_elems[OF assms(2)] by (simp add: moved_overlay_def)
next
  case (spawned c s kids)
  define d where "d = next_ref st"
  define st' where "st' = snd (updateMousePosition ns e st)"
  have al: "allocated st" using assms(1) by (simp add: sound_def)
  have "c \<noteq> d" using allocatedD(5)[OF al, of d] spawned(1) by (auto simp: d_def)
  then have dot: "is_trail_dot st' = (\<lambda>n. n = d \<or> is_trail_dot st n)"
    by (auto simp add: st'_def spawned(5) fun_eq_iff is_trail_dot_def d_def moved_overlay_def spawned_dot_def)
  have kids: "children_of_body st = kids" using spawned(4) by (simp add: children_of_body_def)
  have b: "set (children_of_body st') \<subseteq> insert d (set kids)"
    by (auto simp: st'_def spawned(5) children_of_body_def d_def)
  have h: "set (head st') \<subseteq> set (head st)"
    by (auto simp: st'_def spawned(5))
  have r: "listeners st' = listeners st" "cursor st' = cursor st" "style st' = style st"
    "boundUpdateMousePosition st' = boundUpdateMousePosition st"
    by (simp_all add: st'_def spawned(5))
  show ?thesis
    using assms(2) kids b h unfolding tidy_def st'_def[symmetric] dot r by auto
qed

lemma tidy_dispatch:
  "sound st \<Longrightarrow> tidy st \<Longrightarrow> tidy (snd (dispatch_mousemove ns e hs st))"
  by (induction hs arbitrary: st)
     (simp_all add: sound_updateMousePosition tidy_move del: dispatch_mousemove.simps(2))

lemma tidy_elapse:
  assumes "tidy st"
  shows "tidy (elapse dt st)"
proof -
  define st' where "st' = elapse dt st"
  have dot: "is_trail_dot st' = is_trail_dot st"
    by (simp add: st'_def elapse_eq is_trail_dot_def fun_eq_iff)
  have b: "set (children_of_body st') \<subseteq> set (children_of_body st)"
    by (cases "body st") (auto simp: st'_def elapse_eq children_of_body_def)
  have h: "set (head st') \<subseteq> set (head st)"
    by (auto simp: st'_def elapse_eq)
  have r: "listeners st' = listeners st" "cursor st' = cursor st" "style st' = style st"
    "boundUpdateMousePosition st' = boundUpdateMousePosition st"
    by (simp_all add: st'_def elapse_eq)
  show ?thesis
    using assms b h unfolding tidy_def st'_def[symmetric] dot r by auto
qed

lemma tidy_settings_changed:
  assumes "tidy st"
  shows "tidy (snd (settings_changed this ns u st))"
proof -
  define st0 where "st0 = st\<lparr>settings := Some (write_setting u (nullish (settings st) no_settings))\<rparr>"
  have "is_trail_dot st0 = is_trail_dot st" by (simp add: st0_def is_trail_dot_def fun_eq_iff)
  then have t0: "tidy st0" using assms by (simp add: tidy_def) (simp add: st0_def children_of_body_def)
  have "snd (settings_changed this ns u st) = st0 \<or>
        snd (settings_changed this ns u st) = snd (updateStyles ns st0)"
    unfolding st0_def by (rule settings_changed_cases)
  moreover have "tidy (snd (updateStyles ns st0))"
    using tidy_elems[OF t0, of "elems (snd (updateStyles ns st0))"] updateStyles_frame[of ns st0]
    by simp
  ultimately show ?thesis using t0 by auto
qed

lemma tidy_stop:
  assumes "sound st" and "tidy st"
  shows "tidy (snd (stop st))"
proof -
  define st' where "st' = snd (stop st)"
  have qs: "trail_dots st = trail st" using assms(1) by (simp add: sound_def queue_on_surface_def)
  have dot: "is_trail_dot st' = is_trail_dot st"
    by (simp add: st'_def stop_eq is_trail_dot_def fun_eq_iff)
  have b: "set (children_of_body st') = {n \<in> set (children_of_body st). kept_by_stop st n}"
    by (cases "body st") (auto simp: st'_def stop_eq children_of_body_def)
  have h: "set (head st') = {n \<in> set (head st). kept_by_stop st n}"
    by (auto simp: st'_def stop_eq)
  have r: "cursor st' = None" "style st' = None" "boundUpdateMousePosition st' = None"
    by (simp_all add: st'_def stop_eq)
  have "set (head st') = {}"
    using assms(2) unfolding h by (auto simp: tidy_def kept_by_stop_def)
  moreover have "set (listeners st') = {}"
  proof (cases "boundUpdateMousePosition st")
    case None
    with assms(2) have "listeners st = []" by (cases "listeners st") (auto simp: tidy_def)
    then show ?thesis by (simp add: st'_def stop_eq None)
  next
    case (Some h)
    with assms(2) have "\<forall>x\<in>set (listeners st). x = h" by (simp add: tidy_def)
    then show ?thesis by (auto simp add: st'_def stop_eq Some)
  qed
  moreover have "is_trail_dot st n" if "n \<in> set (children_of_body st')" for n
    using that assms(2) unfolding b by (auto simp: tidy_def kept_by_stop_def)
  ultimately show ?thesis
    unfolding tidy_def st'_def[symmetric] dot r by auto
qed

lemma tidy_start:
  assumes "sound st" and "tidy st" and "boundUpdateMousePosition st = None"
  shows "tidy (snd (start ns st))"
proof (cases "body st")
  case None
  then show ?thesis using assms(2) by (simp add: start_without_body)
next
  case (Some kids)
  define n where "n = next_ref st"
  define st' where "st' = snd (start ns st)"
  have al: "allocated st" using assms(1) by (simp add: sound_def)
  have kids: "children_of_body st = kids" using Some by (simp add: children_of_body_def)
  have eq: "st' = st\<lparr>style := Some n, cursor := Some (Suc n),
               boundUpdateMousePosition := Some (Suc (Suc n)),
               elems := (elems st)(n := sheet_element ns (settings st),
                                   Suc n := (blank ''div'')\<lparr>id_attr := ''vencord-mouse-overlay''\<rparr>),
               next_ref := Suc (Suc (Suc n)),
               head := head st @ [n],
               body := Some (kids @ [Suc n]),
               listeners := listeners st @ [Suc (Suc n)]\<rparr>"
    using start_eq[OF Some al, of ns] by (simp add: st'_def n_def)
  have empty: "head st = []" "listeners st = []" "cursor st = None"
    using assms(2,3) by (auto simp: tidy_def)
  have old: "is_trail_dot st' m = is_trail_dot st m" if "m \<in> set kids" for m
  proof -
    have "m \<noteq> n" "m \<noteq> Suc n"
      using that allocatedD(2)[OF al, of n] allocatedD(2)[OF al, of "Suc n"] kids by (auto simp: n_def)
    then show ?thesis by (simp add: eq is_trail_dot_def)
  qed
  have "\<forall>m \<in> set kids. is_trail_dot st m"
    using assms(2) empty kids by (auto simp: tidy_def)
  with old have "\<forall>m \<in> set kids. is_trail_dot st' m" by simp
  then show ?thesis
    unfolding st'_def[symmetric] by (simp add: tidy_def) (simp add: eq children_of_body_def empty)
qed

lemma tidy_step:
  "sound st \<Longrightarrow> tidy st \<Longrightarrow> start_allowed st ev \<Longrightarrow> tidy (snd (step ns ev st))"
  by (cases ev) (simp_all add: tidy_start tidy_stop tidy_dispatch tidy_elapse tidy_settings_changed)

lemma tidy_run:
  "sound st \<Longrightarrow> tidy st \<Longrightarrow> paired ns st evs \<Longrightarrow> tidy (run ns st evs)"
  by (induction evs arbitrary: st) (simp_all add: tidy_step sound_step)

lemma tidy_loaded: "tidy (loaded cfg b)"
  by (simp add: tidy_def loaded_def children_of_body_def)

lemma stop_clears:
  assumes "sound st"
  shows "fst (stop st) = None" "trail (snd (stop st)) = []" "trail_dots (snd (stop st)) = []"
    "style (snd (stop st)) = None" "cursor (snd (stop st)) = None"
    "boundUpdateMousePosition (snd (stop st)) = None"
proof -
  show "fst (stop st) = None" "trail (snd (stop st)) = []"
    "style (snd (stop st)) = None" "cursor (snd (stop st)) = None"
    "boundUpdateMousePosition (snd (stop st)) = None"
    by (simp_all add: stop_eq)
  with sound_stop[OF assms] show "trail_dots (snd (stop st)) = []"
    by (simp add: sound_def queue_on_surface_def)
qed

lemma stop_empties:
  assumes "sound st" and "tidy st"
  shows "children_of_body (snd (stop st)) = []" "head (snd (stop st)) = []" "listeners (snd (stop st)) = []"
proof -
  define st' where "st' = snd (stop st)"
  have t: "tidy st'" unfolding st'_def by (rule tidy_stop[OF assms])
  have c: "trail_dots st' = []" "style st' = None" "cursor st' = None" "boundUpdateMousePosition st' = None"
    unfolding st'_def by (rule stop_clears[OF assms(1)])+
  have "filter (is_trail_dot st') (children_of_body st') = []"
    using c(1) by (simp only: trail_dots_def)
  then have nd: "\<not> is_trail_dot st' n" if "n \<in> set (children_of_body st')" for n
    using that by (simp only: filter_empty_conv) blast
  have "is_trail_dot st' n \<or> cursor st' = Some n" if "n \<in> set (children_of_body st')" for n
    using t that unfolding tidy_def by blast
  with nd c(3) have "n \<notin> set (children_of_body st')" for n by auto
  then have "children_of_body st' = []" by (cases "children_of_body st'") auto
  then show "children_of_body (snd (stop st)) = []" by (simp only: st'_def)
  have "style st' = Some n" if "n \<in> set (head st')" for n
    using t that unfolding tidy_def by blast
  with c(2) have "n \<notin> set (head st')" for n by auto
  then have "head st' = []" by (cases "head st'") auto
  then show "head (snd (stop st)) = []" by (simp only: st'_def)
  have "boundUpdateMousePosition st' = Some n" if "n \<in> set (listeners st')" for n
    using t that unfolding tidy_def by blast
  with c(4) have "n \<notin> set (listeners st')" for n by auto
  then have "listeners st' = []" by (cases "listeners st'") auto
  then show "listeners (snd (stop st)) = []" by (simp only: st'_def)
qed

subsection \<open>Timers along a run\<close>

lemma spawns_only_refl: "spawns_only st st"
  by (simp add: spawns_only_def)

lemma spawns_only_trans:
  assumes "spawns_only a b" and "spawns_only b c"
  shows "spawns_only a c"
proof -
  have ab: "next_ref a \<le> next_ref b" "clock b = clock a"
    "\<And>n. n < next_ref a \<Longrightarrow> is_trail_dot b n = is_trail_dot a n"
    "\<And>t. t \<in> set (timers b) \<Longrightarrow> t \<in> set (timers a) \<or> (next_ref a \<le> snd t \<and> fst t = clock a + 100)"
    "\<And>n. n \<in> set (trail b) \<Longrightarrow> n \<in> set (trail a) \<or> next_ref a \<le> n"
    using assms(1) unfolding spawns_only_def by blast+
  have bc: "next_ref b \<le> next_ref c" "clock c = clock b"
    "\<And>n. n < next_ref b \<Longrightarrow> is_trail_dot c n = is_trail_dot b n"
    "\<And>t. t \<in> set (timers c) \<Longrightarrow> t \<in> set (timers b) \<or> (next_ref b \<le> snd t \<and> fst t = clock b + 100)"
    "\<And>n. n \<in> set (trail c) \<Longrightarrow> n \<in> set (trail b) \<or> next_ref b \<le> n"
    using assms(2) unfolding spawns_only_def by blast+
  have 1: "next_ref a \<le> next_ref c" "clock c = clock a" using ab(1,2) bc(1,2) by simp_all
  have 2: "is_trail_dot c n = is_trail_dot a n" if "n < next_ref a" for n
    using that ab(1) ab(3)[of n] bc(3)[of n] by simp
  have 3: "t \<in> set (timers a) \<or> (next_ref a \<le> snd t \<and> fst t = clock a + 100)" if "t \<in> set (timers c)" for t
    using bc(4)[OF that] ab(4)[of t] ab(1,2) by auto
  have 4: "n \<in> set (trail a) \<or> next_ref a \<le> n" if "n \<in> set (trail c)" for n
    using bc(5)[OF that] ab(5)[of n] ab(1) by auto
  show ?thesis unfolding spawns_only_def using 1 2 3 4 by blast
qed

lemma spawns_only_move:
  assumes "sound st"
  shows "spawns_only st (snd (updateMousePosition ns e st))"
  using assms
proof (cases rule: move_cases[of _ ns e])
  case ignored
  then show ?thesis by (simp add: spawns_only_refl)
next
  case (moved c s)
  then show ?thesis by (simp add: spawns_only_def is_trail_dot_def moved_overlay_def)
next
  case (spawned c s kids)
  have tl: "set (tl (trail st @ [next_ref st])) \<subseteq> insert (next_ref st) (set (trail st))"
    using set_tl_subset[of "trail st @ [next_ref st]"] by simp
  show ?thesis
    unfolding spawned(5) spawns_only_def using tl 
    by (auto simp: is_trail_dot_def moved_overlay_def)
qed

lemma spawns_only_dispatch:
  "sound st \<Longrightarrow> spawns_only st (snd (dispatch_mousemove ns e hs st))"
proof (induction hs arbitrary: st)
  case Nil
  then show ?case by (simp add: spawns_only_refl)
next
  case (Cons h hs)
  from Cons.IH[OF sound_updateMousePosition[OF Cons.prems, of ns e]] spawns_only_move[OF Cons.prems, of ns e]
  show ?case by (simp del: dispatch_mousemove.simps(2)) (rule spawns_only_trans)
qed

lemma settings_changed_className:
  "className (elems (snd (settings_changed this ns u st)) n) = className (elems st n)"
proof -
  define st0 where "st0 = st\<lparr>settings := Some (write_setting u (nullish (settings st) no_settings))\<rparr>"
  have "snd (settings_changed this ns u st) = st0 \<or>
        snd (settings_changed this ns u st) = snd (updateStyles ns st0)"
    unfolding st0_def by (rule settings_changed_cases)
  moreover have "className (elems (snd (updateStyles ns st0)) n) = className (elems st0 n)"
    using updateStyles_frame[of ns st0] by simp
  moreover have "elems st0 = elems st" by (simp add: st0_def)
  ultimately show ?thesis by auto
qed

lemma extends_step:
  assumes "sound st"
  shows "extends st (snd (step ns ev st))"
proof (cases ev)
  case Start
  show ?thesis
  proof (cases "body st")
    case None
    then show ?thesis using Start by (simp add: start_without_body extends_def)
  next
    case (Some kids)
    have "allocated st" using assms by (simp add: sound_def)
    from start_eq[OF Some this, of ns] show ?thesis
      using Start by (simp add: extends_def is_trail_dot_def)
  qed
next
  case Stop
  then show ?thesis by (simp add: stop_eq extends_def is_trail_dot_def)
next
  case (MouseMove e)
  from spawns_only_dispatch[OF assms, of ns e "listeners st"] show ?thesis
    unfolding MouseMove spawns_only_def extends_def by auto
next
  case (Elapse dt)
  then show ?thesis by (simp add: elapse_eq extends_def is_trail_dot_def)
next
  case (Change this u)
  have f: "next_ref (snd (settings_changed this ns u st)) = next_ref st"
    "clock (snd (settings_changed this ns u st)) = clock st"
    "timers (snd (settings_changed this ns u st)) = timers st"
    by (subst settings_changed_snd, simp)+
  have "extends st (snd (settings_changed this ns u st))"
    by (simp add: extends_def is_trail_dot_def f settings_changed_className)
  then show ?thesis using Change by simp
qed


lemma extends_run_dot:
  "sound st \<Longrightarrow> d < next_ref st \<Longrightarrow>
   is_trail_dot (run ns st evs) d = is_trail_dot st d \<and> d < next_ref (run ns st evs) \<and>
   clock st \<le> clock (run ns st evs)"
proof (induction evs arbitrary: st)
  case Nil
  then show ?case by simp
next
  case (Cons ev evs)
  define st1 where "st1 = snd (step ns ev st)"
  have e: "extends st st1" unfolding st1_def by (rule extends_step[OF Cons.prems(1)])
  then have 1: "d < next_ref st1" "is_trail_dot st1 d = is_trail_dot st d" "clock st \<le> clock st1"
    using Cons.prems(2) by (auto simp: extends_def)
  have "sound st1" unfolding st1_def by (rule sound_step[OF Cons.prems(1)])
  from Cons.IH[OF this 1(1)] 1 show ?case by (simp add: st1_def)
qed

lemma timer_due_kept:
  "sound st \<Longrightarrow> d < next_ref st \<Longrightarrow> \<forall>t \<in> set (timers st). snd t = d \<longrightarrow> fst t = T \<Longrightarrow>
   \<forall>t \<in> set (timers (run ns st evs)). snd t = d \<longrightarrow> fst t = T"
proof (induction evs arbitrary: st)
  case Nil
  then show ?case by simp
next
  case (Cons ev evs)
  define st1 where "st1 = snd (step ns ev st)"
  have e: "extends st st1" unfolding st1_def by (rule extends_step[OF Cons.prems(1)])
  then have 1: "d < next_ref st1" using Cons.prems(2) by (auto simp: extends_def)
  have 2: "\<forall>t \<in> set (timers st1). snd t = d \<longrightarrow> fst t = T"
  proof (intro ballI impI)
    fix t assume t: "t \<in> set (timers st1)" "snd t = d"
    with e have "t \<in> set (timers st) \<or> next_ref st \<le> snd t" by (auto simp: extends_def)
    with t(2) Cons.prems(2) have "t \<in> set (timers st)" by auto
    with Cons.prems(3) t(2) show "fst t = T" by auto
  qed
  have "sound st1" unfolding st1_def by (rule sound_step[OF Cons.prems(1)])
  from Cons.IH[OF this 1 2] show ?case by (simp add: st1_def)
qed

subsection \<open>Eviction, and changes of the settings\<close>

lemma move_evicts_head:
  assumes "sound st" and "cursor st \<noteq> None" and "trail_enabled st"
    and "trail_limit st < of_nat (length (trail st @ [next_ref st]))"
  shows "hd (trail st @ [next_ref st]) \<notin> set (children_of_body (snd (updateMousePosition ns e st)))"
  using assms(1)
proof (cases rule: move_cases[of _ ns e])
  case ignored
  then show ?thesis using assms(2,3) by (auto simp: trail_enabled_def)
next
  case (moved c s)
  then show ?thesis using assms(3) by (simp add: trail_enabled_def)
next
  case (spawned c s kids)
  have "nullish (trailLength s) (trailLength defaultSettings) < of_nat (length (trail st @ [next_ref st]))"
    using assms(4) spawned(2) by (simp add: trail_limit_def)
  then show ?thesis
    unfolding spawned(5) by (simp add: children_of_body_def)
qed

lemma hd_least: "sorted_wrt (<) (xs :: nat list) \<Longrightarrow> \<forall>n \<in> set xs. hd xs \<le> n"
  by (cases xs) auto




section \<open>The claims\<close>

subsection \<open>Which options rebuild the stylesheet\<close>





subsection \<open>What the stylesheet depends on\<close>

text \<open>
  C9. When the stored \<open>cursorStyle\<close> is any value other than \<open>circle\<close> (of the styles
  offered, that is \<open>custom\<close>, the image), \<open>updateStyles\<close> writes the same elements whatever \<open>cursorColor\<close> is, all other
  settings being equal: the text of the stylesheet node is the fixed prefix, the overlay
  geometry, the block that names the image at \<open>CURSOR_URL\<close>, and the trail rule, and no
  colour of the cursor occurs in it.
\<close>

theorem custom_style_ignores_cursorColor:
  assumes "style st = Some sheet" and "cursorStyle s = Some cs" and "cs \<noteq> ''circle''"
  shows "elems (snd (updateStyles ns (st\<lparr>settings := Some (s\<lparr>cursorColor := c1\<rparr>)\<rparr>))) =
         elems (snd (updateStyles ns (st\<lparr>settings := Some (s\<lparr>cursorColor := c2\<rparr>)\<rparr>))) \<and>
         textContent (elems (snd (updateStyles ns (st\<lparr>settings := Some (s\<lparr>cursorColor := c1\<rparr>)\<rparr>))) sheet) =
           suppress_native_cursor @
           overlay_geometry ns (nullish (cursorSize s) (cursorSize defaultSettings)) @
           image_block @
           trail_rule ns (nullish (cursorSize s) (cursorSize defaultSettings))
                         (nullish (trailColor s) (trailColor defaultSettings))"
  using assms by (simp add: updateStyles_def set_textContent_def stylesheet_def nullish_def)

theorem custom_style_ignores_cursorColor_witness:
  "''custom'' \<in> fst ` set CURSOR_STYLES \<and>
   style started = Some 0 \<and> cursorStyle custom_red = Some ''custom'' \<and> ''custom'' \<noteq> ''circle'' \<and>
   elems (snd (updateStyles decimal (started\<lparr>settings := Some (custom_red\<lparr>cursorColor := Some ''#ff0000''\<rparr>)\<rparr>))) =
   elems (snd (updateStyles decimal (started\<lparr>settings := Some (custom_red\<lparr>cursorColor := Some ''#0000ff''\<rparr>)\<rparr>)))"
  using custom_style_ignores_cursorColor[of started 0 custom_red "''custom''" decimal
      "Some ''#ff0000''" "Some ''#0000ff''"]
  by (simp add: started_eq custom_red_def CURSOR_STYLES_def)

text \<open>
  C10. Two stored settings that agree on \<open>cursorSize\<close>, \<open>cursorColor\<close>, \<open>trailColor\<close> and
  \<open>cursorStyle\<close>, each read with its default for a missing value, make \<open>updateStyles\<close> write
  the same elements, hence the same stylesheet text, whatever \<open>trailEnabled\<close> and
  \<open>trailLength\<close> are.
\<close>

theorem stylesheet_determined_by_four_fields:
  assumes "nullish (cursorSize a) (cursorSize defaultSettings) = nullish (cursorSize b) (cursorSize defaultSettings)"
      and "nullish (cursorColor a) (cursorColor defaultSettings) = nullish (cursorColor b) (cursorColor defaultSettings)"
      and "nullish (trailColor a) (trailColor defaultSettings) = nullish (trailColor b) (trailColor defaultSettings)"
      and "nullish (cursorStyle a) (cursorStyle defaultSettings) = nullish (cursorStyle b) (cursorStyle defaultSettings)"
  shows "fst (updateStyles ns (st\<lparr>settings := Some a\<rparr>)) = fst (updateStyles ns (st\<lparr>settings := Some b\<rparr>)) \<and>
         elems (snd (updateStyles ns (st\<lparr>settings := Some a\<rparr>))) =
         elems (snd (updateStyles ns (st\<lparr>settings := Some b\<rparr>)))"
  using assms by (simp add: updateStyles_def set_textContent_def split: option.splits)

theorem stylesheet_determined_by_four_fields_witness:
  "nullish (cursorSize custom_red) (cursorSize defaultSettings) =
     nullish (cursorSize (custom_red\<lparr>trailEnabled := None, trailLength := Some 9\<rparr>)) (cursorSize defaultSettings) \<and>
   nullish (cursorColor custom_red) (cursorColor defaultSettings) =
     nullish (cursorColor (custom_red\<lparr>trailEnabled := None, trailLength := Some 9\<rparr>)) (cursorColor defaultSettings) \<and>
   nullish (trailColor custom_red) (trailColor defaultSettings) =
     nullish (trailColor (custom_red\<lparr>trailEnabled := None, trailLength := Some 9\<rparr>)) (trailColor defaultSettings) \<and>
   nullish (cursorStyle custom_red) (cursorStyle defaultSettings) =
     nullish (cursorStyle (custom_red\<lparr>trailEnabled := None, trailLength := Some 9\<rparr>)) (cursorStyle defaultSettings) \<and>
   elems (snd (updateStyles decimal (started\<lparr>settings := Some custom_red\<rparr>))) =
     elems (snd (updateStyles decimal
        (started\<lparr>settings := Some (custom_red\<lparr>trailEnabled := None, trailLength := Some 9\<rparr>)\<rparr>)))"
  using stylesheet_determined_by_four_fields[of custom_red
      "custom_red\<lparr>trailEnabled := None, trailLength := Some 9\<rparr>" decimal started]
  by simp

subsection \<open>The trail queue\<close>

text \<open>
  C2, as amended. Take any sequence of start, stop, pointer moves, passing time and settings
  changes from the loaded script, in which the stored \<open>trailLength\<close> starts non-negative
  and no change sets it below the length the queue has at that moment. Then in the state
  reached the queue is no longer than the current \<open>trailLength\<close>, and it is in spawn order:
  references grow along it and lie below the next one to be allocated. A pointer move there
  leaves the queue as it is when there is no overlay or the trail is off; otherwise it appends
  the new dot and, exactly when the appended queue is longer than \<open>trailLength\<close>, drops its
  head. That head has the least reference of the appended queue, so it is the oldest dot, and
  after the move it is no longer on the surface.
\<close>

theorem queue_within_limit:
  assumes "0 \<le> trail_limit (loaded cfg b)" and "limit_kept ns (loaded cfg b) evs"
  shows "of_nat (length (trail (run ns (loaded cfg b) evs))) \<le> trail_limit (run ns (loaded cfg b) evs) \<and>
         sorted_wrt (<) (trail (run ns (loaded cfg b) evs)) \<and>
         (\<forall>n \<in> set (trail (run ns (loaded cfg b) evs)). n < next_ref (run ns (loaded cfg b) evs)) \<and>
         (\<forall>e. trail (snd (updateMousePosition ns e (run ns (loaded cfg b) evs))) =
               (if cursor (run ns (loaded cfg b) evs) \<noteq> None \<and> trail_enabled (run ns (loaded cfg b) evs)
                then (if trail_limit (run ns (loaded cfg b) evs)
                          < of_nat (length (trail (run ns (loaded cfg b) evs) @ [next_ref (run ns (loaded cfg b) evs)]))
                      then tl (trail (run ns (loaded cfg b) evs) @ [next_ref (run ns (loaded cfg b) evs)])
                      else trail (run ns (loaded cfg b) evs) @ [next_ref (run ns (loaded cfg b) evs)])
                else trail (run ns (loaded cfg b) evs))) \<and>
         (\<forall>n \<in> set (trail (run ns (loaded cfg b) evs) @ [next_ref (run ns (loaded cfg b) evs)]).
             hd (trail (run ns (loaded cfg b) evs) @ [next_ref (run ns (loaded cfg b) evs)]) \<le> n) \<and>
         (\<forall>e. cursor (run ns (loaded cfg b) evs) \<noteq> None \<and> trail_enabled (run ns (loaded cfg b) evs) \<and>
              trail_limit (run ns (loaded cfg b) evs)
                < of_nat (length (trail (run ns (loaded cfg b) evs) @ [next_ref (run ns (loaded cfg b) evs)])) \<longrightarrow>
              hd (trail (run ns (loaded cfg b) evs) @ [next_ref (run ns (loaded cfg b) evs)])
                \<notin> set (children_of_body (snd (updateMousePosition ns e (run ns (loaded cfg b) evs)))))"
proof -
  define S where "S = run ns (loaded cfg b) evs"
  have so: "sound S" unfolding S_def by (rule sound_reachable)
  have "within_limit (loaded cfg b)"
    using assms(1) by (simp add: within_limit_def) (simp add: loaded_def)
  from within_limit_run[OF sound_loaded this assms(2)]
  have 1: "of_nat (length (trail S)) \<le> trail_limit S"
    by (simp add: within_limit_def S_def)
  have 2: "sorted_wrt (<) (trail S)"
    using so by (simp add: sound_def queue_on_surface_def)
  have 3: "\<forall>n \<in> set (trail S). n < next_ref S"
    using so by (simp add: sound_def allocated_def refs_of_def)
  have 4: "trail (snd (updateMousePosition ns e S)) =
             (if cursor S \<noteq> None \<and> trail_enabled S
              then (if trail_limit S < of_nat (length (trail S @ [next_ref S]))
                    then tl (trail S @ [next_ref S]) else trail S @ [next_ref S])
              else trail S)" for e
    by (rule move_trail[OF so])
  have "sorted_wrt (<) (trail S @ [next_ref S])"
    using 2 3 by (simp add: sorted_wrt_append)
  then have 5: "\<forall>n \<in> set (trail S @ [next_ref S]). hd (trail S @ [next_ref S]) \<le> n"
    by (rule hd_least)
  have 6: "hd (trail S @ [next_ref S]) \<notin> set (children_of_body (snd (updateMousePosition ns e S)))"
    if "cursor S \<noteq> None \<and> trail_enabled S \<and> trail_limit S < of_nat (length (trail S @ [next_ref S]))" for e
    using that move_evicts_head[OF so, of ns e] by blast
  from 1 2 3 4 5 6 show ?thesis unfolding S_def by blast
qed

theorem queue_within_limit_witness:
  "0 \<le> trail_limit (loaded (Some custom_red) True) \<and>
   limit_kept decimal (loaded (Some custom_red) True) steady \<and>
   trail (run decimal (loaded (Some custom_red) True) steady) = [5, 6] \<and>
   trail_limit (run decimal (loaded (Some custom_red) True) steady) = 2 \<and>
   of_nat (length (trail (run decimal (loaded (Some custom_red) True) steady))) \<le>
     trail_limit (run decimal (loaded (Some custom_red) True) steady) \<and>
   trail (snd (updateMousePosition decimal \<lparr>clientX = 50, clientY = 10\<rparr>
       (run decimal (loaded (Some custom_red) True) steady))) = [6, 7] \<and>
   5 \<notin> set (children_of_body (snd (updateMousePosition decimal \<lparr>clientX = 50, clientY = 10\<rparr>
       (run decimal (loaded (Some custom_red) True) steady))))"
proof -
  have h1: "0 \<le> trail_limit (loaded (Some custom_red) True)"
    by (simp add: trail_limit_def model_defs)
  have h2: "limit_kept decimal (loaded (Some custom_red) True) steady"
    by (simp add: steady_def model_defs)
  have f: "trail (run decimal (loaded (Some custom_red) True) steady) = [5, 6]"
    "trail_limit (run decimal (loaded (Some custom_red) True) steady) = 2"
    "next_ref (run decimal (loaded (Some custom_red) True) steady) = 7"
    "cursor (run decimal (loaded (Some custom_red) True) steady) \<noteq> None"
    "trail_enabled (run decimal (loaded (Some custom_red) True) steady)"
    by (simp_all add: steady_def trail_limit_def trail_enabled_def model_defs)
  from queue_within_limit[OF h1 h2, THEN conjunct1] h1 h2 f
  have a: "of_nat (length (trail (run decimal (loaded (Some custom_red) True) steady))) \<le>
     trail_limit (run decimal (loaded (Some custom_red) True) steady)" by blast
  from queue_within_limit[OF h1 h2] f
  have b: "trail (snd (updateMousePosition decimal \<lparr>clientX = 50, clientY = 10\<rparr>
       (run decimal (loaded (Some custom_red) True) steady))) = [6, 7]"
    "5 \<notin> set (children_of_body (snd (updateMousePosition decimal \<lparr>clientX = 50, clientY = 10\<rparr>
       (run decimal (loaded (Some custom_red) True) steady))))"
    by simp_all
  from h1 h2 f a b show ?thesis by blast
qed

text \<open>
  C2 as stated fails across a change of \<open>trailLength\<close>: with three dots queued under
  \<open>trailLength = 3\<close>, lowering the setting to 1 and moving the pointer once more leaves
  three dots in the queue, since the overflow check drops one dot for the one it adds.
\<close>

theorem lowered_trailLength_leaves_queue_oversized:
  "length (trail oversized) = 3 \<and> trail_limit oversized = 1 \<and>
   \<not> of_nat (length (trail oversized)) \<le> trail_limit oversized"
  by (simp add: oversized_def trail_limit_def model_defs)

subsection \<open>Positions\<close>

text \<open>
  C4. In every reachable state with an overlay and stored settings, a pointer move at
  \<open>(x, y)\<close> returns normally and sets the transform of the overlay to the translation by
  \<open>(x - S/2, y - S/2)\<close>, where \<open>S\<close> is the cursor size (20 when none is stored); when the
  trail is enabled, the node it creates is a trail dot whose \<open>left\<close> and \<open>top\<close> are
  \<open>x - S/4\<close> and \<open>y - S/4\<close> pixels. The instance that follows is the case of
  the specification: size 20 and a move at \<open>(100, 100)\<close> give \<open>(90, 90)\<close> and \<open>(95, 95)\<close>.
\<close>

theorem pointer_move_positions:
  assumes "st = run ns (loaded cfg b) evs" and "cursor st = Some c" and "settings st = Some s"
  shows "fst (updateMousePosition ns e st) = None \<and>
         style_transform (elems (snd (updateMousePosition ns e st)) c) =
           ''translate('' @ ns (clientX e - nullish (cursorSize s) (cursorSize defaultSettings) / 2) @ ''px, '' @
                            ns (clientY e - nullish (cursorSize s) (cursorSize defaultSettings) / 2) @ ''px)'' \<and>
         (truthy (trailEnabled s) \<longrightarrow>
            className (elems (snd (updateMousePosition ns e st)) (next_ref st)) = ''mouse-trail'' \<and>
            style_left (elems (snd (updateMousePosition ns e st)) (next_ref st)) =
              ns (clientX e - nullish (cursorSize s) (cursorSize defaultSettings) / 4) @ ''px'' \<and>
            style_top (elems (snd (updateMousePosition ns e st)) (next_ref st)) =
              ns (clientY e - nullish (cursorSize s) (cursorSize defaultSettings) / 4) @ ''px'')"
proof (cases "truthy (trailEnabled s)")
  case False
  from move_without_trail[OF assms(2,3) False, of ns e] False show ?thesis
    by (simp add: moved_overlay_def)
next
  case True
  have so: "sound st" using assms(1) by (simp add: sound_reachable)
  then have al: "allocated st" by (simp add: sound_def)
  from so assms(2) obtain kids where k: "body st = Some kids"
    by (auto simp: sound_def queue_on_surface_def)
  have "c \<noteq> next_ref st" using allocatedD(5)[OF al, of "next_ref st"] assms(2) by auto
  with move_with_trail[OF assms(2,3) True k al, of ns e] show ?thesis
    by (simp add: moved_overlay_def spawned_dot_def)
qed

theorem pointer_move_positions_witness:
  "started = run decimal (loaded (Some custom_red) True) [Start] \<and>
   cursor started = Some 1 \<and> settings started = Some custom_red \<and> truthy (trailEnabled custom_red) \<and>
   nullish (cursorSize custom_red) (cursorSize defaultSettings) = 20 \<and>
   style_transform (elems (snd (updateMousePosition decimal \<lparr>clientX = 100, clientY = 100\<rparr> started)) 1) =
     ''translate(90px, 90px)'' \<and>
   style_left (elems (snd (updateMousePosition decimal \<lparr>clientX = 100, clientY = 100\<rparr> started)) (next_ref started)) = ''95px'' \<and>
   style_top (elems (snd (updateMousePosition decimal \<lparr>clientX = 100, clientY = 100\<rparr> started)) (next_ref started)) = ''95px''"
proof -
  have h1: "started = run decimal (loaded (Some custom_red) True) [Start]"
    by (rule started_def)
  have h2: "cursor started = Some 1" "settings started = Some custom_red"
    by (simp_all add: started_eq loaded_def)
  note h = h1 h2
  have t: "truthy (trailEnabled custom_red)" "nullish (cursorSize custom_red) (cursorSize defaultSettings) = 20"
    by (simp_all add: custom_red_def truthy_def nullish_def)
  have d: "decimal 90 = ''90''" "decimal 95 = ''95''"
    by (simp_all add: decimal_def digit_char_def)
  from pointer_move_positions[OF h, of "\<lparr>clientX = 100, clientY = 100\<rparr>"] h t d show ?thesis
    by simp
qed

subsection \<open>Timers of dots that are gone\<close>

text \<open>
  C6. In every reachable state, a pending timer whose dot is no longer in the queue (the
  overflow check or stop removed it) belongs to a dot that has no parent either, and running
  its callback returns normally and changes nothing at all. More generally, in any state
  whatever, the callback of a dot that is neither queued nor attached is the identity.
\<close>

theorem timer_of_removed_dot_changes_nothing:
  assumes "st = run ns (loaded cfg b) evs" and "(t, d) \<in> set (timers st)" and "d \<notin> set (trail st)"
  shows "\<not> has_parent st d \<and> dot_timeout d st = (None, st) \<and>
         (\<forall>st'. d \<notin> set (trail st') \<and> \<not> has_parent st' d \<longrightarrow> dot_timeout d st' = (None, st'))"
proof -
  have so: "sound st" using assms(1) by (simp add: sound_reachable)
  then have dot: "is_trail_dot st d" and nohead: "d \<notin> set (head st)"
    using assms(2) by (auto simp: sound_def timers_for_dots_def)
  have "d \<notin> set (children_of_body st)"
  proof
    assume "d \<in> set (children_of_body st)"
    with dot have "d \<in> set (trail_dots st)" by (simp add: trail_dots_def)
    with so assms(3) show False by (simp add: sound_def queue_on_surface_def)
  qed
  with nohead have "\<not> has_parent st d" by (simp add: has_parent_def)
  with assms(3) show ?thesis by (simp add: dot_timeout_absent)
qed

theorem timer_of_removed_dot_changes_nothing_witness:
  "after_stop = run decimal (loaded (Some custom_red) True)
     [Start, MouseMove \<lparr>clientX = 100, clientY = 100\<rparr>, Stop] \<and>
   (100, 3) \<in> set (timers after_stop) \<and> 3 \<notin> set (trail after_stop) \<and>
   \<not> has_parent after_stop 3 \<and> dot_timeout 3 after_stop = (None, after_stop)"
proof -
  have h: "(100, 3) \<in> set (timers after_stop)" "3 \<notin> set (trail after_stop)"
    by (simp_all add: after_stop_fields)
  from timer_of_removed_dot_changes_nothing[OF after_stop_def h] h after_stop_def show ?thesis
    by blast
qed

subsection \<open>The trail switched off\<close>

text \<open>
  C8. While the stored \<open>trailEnabled\<close> is not true, any number of pointer moves, each
  delivered to every registered listener, leaves an empty queue empty and a surface without
  trail dots without trail dots. The state changes in its elements only, an element changes in
  its \<open>style.transform\<close> only, and only the overlay's element changes.
\<close>

theorem no_trail_when_disabled:
  assumes "\<not> trail_enabled st" and "trail st = []" and "trail_dots st = []"
  shows "trail (run ns st (map MouseMove es)) = [] \<and>
         trail_dots (run ns st (map MouseMove es)) = [] \<and>
         (run ns st (map MouseMove es))\<lparr>elems := elems st\<rparr> = st \<and>
         (\<forall>n. (elems (run ns st (map MouseMove es)) n)\<lparr>style_transform := style_transform (elems st n)\<rparr>
               = elems st n) \<and>
         (\<forall>n. cursor st \<noteq> Some n \<longrightarrow> elems (run ns st (map MouseMove es)) n = elems st n)"
proof -
  have m: "only_overlay_moved st (run ns st (map MouseMove es))"
    by (rule moves_disabled[OF assms(1)])
  have "is_trail_dot (run ns st (map MouseMove es)) = is_trail_dot st"
    by (simp add: is_trail_dot_def fun_eq_iff only_overlay_moved_fields[OF m])
  then have "trail_dots (run ns st (map MouseMove es)) = trail_dots st"
    by (simp add: trail_dots_def children_of_body_def only_overlay_moved_fields[OF m])
  then show ?thesis
    using m assms by (simp add: only_overlay_moved_fields[OF m]) (simp add: only_overlay_moved_def)
qed

theorem no_trail_when_disabled_witness:
  "\<not> trail_enabled untrailed \<and> trail untrailed = [] \<and> trail_dots untrailed = [] \<and>
   trail (run decimal untrailed (map MouseMove [\<lparr>clientX = 100, clientY = 100\<rparr>, \<lparr>clientX = 7, clientY = 5\<rparr>])) = [] \<and>
   trail_dots (run decimal untrailed (map MouseMove [\<lparr>clientX = 100, clientY = 100\<rparr>, \<lparr>clientX = 7, clientY = 5\<rparr>])) = []"
  using no_trail_when_disabled[of untrailed decimal "[\<lparr>clientX = 100, clientY = 100\<rparr>, \<lparr>clientX = 7, clientY = 5\<rparr>]"]
  by (simp add: untrailed_eq trail_enabled_def truthy_def trail_dots_def
      children_of_body_def is_trail_dot_def loaded_def blank_def del: run.simps)

subsection \<open>More moves than the queue holds\<close>

text \<open>
  C3. In a reachable state with an overlay, at least one listener, the trail enabled, the
  current \<open>trailLength\<close> equal to the natural number \<open>N\<close> and an empty queue, more than
  \<open>N\<close> pointer moves with no time passing in between leave exactly \<open>N\<close> dots in the
  queue, and the trail dots on the surface are exactly the queued ones: an evicted dot is
  detached at once and does not wait for its timer.
\<close>

theorem queue_filled_by_moves:
  assumes "st = run ns (loaded cfg b) evs" and "cursor st \<noteq> None" and "listeners st \<noteq> []"
    and "trail_enabled st" and "trail_limit st = of_nat N" and "trail st = []" and "N < length es"
  shows "length (trail (run ns st (map MouseMove es))) = N \<and>
         trail_dots (run ns st (map MouseMove es)) = trail (run ns st (map MouseMove es))"
proof -
  have so: "sound st" using assms(1) by (simp add: sound_reachable)
  have "length (trail (run ns st (map MouseMove es))) = min (length es * length (listeners st)) N"
    using moves_fill[OF so assms(2,4,5), of ns es] assms(6) by simp
  moreover have "length es \<le> length es * length (listeners st)"
    using assms(3) by (cases "listeners st") simp_all
  ultimately have "length (trail (run ns st (map MouseMove es))) = N"
    using assms(7) by simp
  moreover have "sound (run ns st (map MouseMove es))" by (rule sound_run[OF so])
  ultimately show ?thesis by (simp add: sound_def queue_on_surface_def)
qed

theorem queue_filled_by_moves_witness:
  "started = run decimal (loaded (Some custom_red) True) [Start] \<and> cursor started \<noteq> None \<and>
   listeners started \<noteq> [] \<and> trail_enabled started \<and> trail_limit started = of_nat 3 \<and>
   trail started = [] \<and> 3 < length four_moves \<and>
   length (trail (run decimal started (map MouseMove four_moves))) = 3 \<and>
   trail_dots (run decimal started (map MouseMove four_moves)) =
     trail (run decimal started (map MouseMove four_moves))"
proof -
  have h: "cursor started \<noteq> None" "listeners started \<noteq> []" "trail_enabled started"
    "trail_limit started = of_nat 3" "trail started = []" "3 < length four_moves"
    by (simp_all add: started_eq loaded_def trail_enabled_def trail_limit_def custom_red_def
        truthy_def nullish_def four_moves_def)
  from queue_filled_by_moves[OF started_def h] h started_def show ?thesis
    by blast
qed

subsection \<open>Stop\<close>

text \<open>
  C7. The host pairs start with stop: start is only ever called while no listener is held.
  After any such sequence of events from the loaded script, stop returns normally and leaves no
  overlay node, no stylesheet node and no trail dot on the surface, an empty queue, no
  listener, and the references to the stylesheet, the overlay and the listener released. The
  parts on the queue, the trail dots, the references and the normal return hold after any
  sequence whatever. When start was never called, stop leaves the state as it is.
\<close>

theorem stop_yields_inactive:
  "fst (stop (run ns (loaded cfg b) evs)) = None \<and>
   trail (snd (stop (run ns (loaded cfg b) evs))) = [] \<and>
   trail_dots (snd (stop (run ns (loaded cfg b) evs))) = [] \<and>
   style (snd (stop (run ns (loaded cfg b) evs))) = None \<and>
   cursor (snd (stop (run ns (loaded cfg b) evs))) = None \<and>
   boundUpdateMousePosition (snd (stop (run ns (loaded cfg b) evs))) = None \<and>
   (paired ns (loaded cfg b) evs \<longrightarrow>
      overlay_nodes (snd (stop (run ns (loaded cfg b) evs))) = [] \<and>
      stylesheet_nodes (snd (stop (run ns (loaded cfg b) evs))) = [] \<and>
      listeners (snd (stop (run ns (loaded cfg b) evs))) = []) \<and>
   (Start \<notin> set evs \<longrightarrow>
      stop (run ns (loaded cfg b) evs) = (None, run ns (loaded cfg b) evs))"
proof -
  have so: "sound (run ns (loaded cfg b) evs)" by (rule sound_reachable)
  have "overlay_nodes (snd (stop (run ns (loaded cfg b) evs))) = [] \<and>
      stylesheet_nodes (snd (stop (run ns (loaded cfg b) evs))) = [] \<and>
      listeners (snd (stop (run ns (loaded cfg b) evs))) = []" if "paired ns (loaded cfg b) evs"
  proof -
    have "tidy (run ns (loaded cfg b) evs)"
      by (rule tidy_run[OF sound_loaded tidy_loaded that])
    from stop_empties[OF so this] show ?thesis
      by (simp add: overlay_nodes_def stylesheet_nodes_def)
  qed
  moreover have "stop (run ns (loaded cfg b) evs) = (None, run ns (loaded cfg b) evs)"
    if "Start \<notin> set evs"
    by (rule stop_idle[OF idle_run[OF idle_loaded that]])
  ultimately show ?thesis
    using stop_clears[OF so] by blast
qed

theorem stop_yields_inactive_witness:
  "paired decimal (loaded (Some custom_red) True) session \<and>
   overlay_nodes (snd (stop (run decimal (loaded (Some custom_red) True) session))) = [] \<and>
   stylesheet_nodes (snd (stop (run decimal (loaded (Some custom_red) True) session))) = [] \<and>
   listeners (snd (stop (run decimal (loaded (Some custom_red) True) session))) = [] \<and>
   Start \<notin> set [Elapse 5, Stop] \<and>
   stop (run decimal (loaded (Some custom_red) True) [Elapse 5, Stop]) =
     (None, run decimal (loaded (Some custom_red) True) [Elapse 5, Stop])"
proof -
  have h: "paired decimal (loaded (Some custom_red) True) session"
    by (simp add: session_def model_defs)
  have g: "Start \<notin> set [Elapse 5, Stop]" by simp
  from stop_yields_inactive[of decimal "Some custom_red" True session]
    stop_yields_inactive[of decimal "Some custom_red" True "[Elapse 5, Stop]"] h g
  show ?thesis by blast
qed

subsection \<open>Expiry\<close>

text \<open>
  C5. Time is the clock of the event loop, in milliseconds, and a timer runs as soon as the
  clock has reached its due time. Take a reachable state and a pointer move in it, and a dot
  that this move put on the surface. Whatever happens next (more moves, settings changes, stop,
  start), once the clock shows 100 ms or more since the move, the dot is neither on the surface
  nor in the queue: its timer was set unconditionally, is never cancelled, and its callback
  detaches the dot and filters it out of the queue. The instance that follows is one move
  under \<open>trailLength = 100\<close>, where the overflow check never evicts.
\<close>

theorem dot_gone_after_100ms:
  assumes "st = run ns (loaded cfg b) evs0"
    and "d \<in> set (trail_dots (snd (step ns (MouseMove e) st)))" and "d \<notin> set (trail_dots st)"
    and "clock st + 100 \<le> clock (run ns (snd (step ns (MouseMove e) st)) evs)"
  shows "d \<notin> set (children_of_body (run ns (snd (step ns (MouseMove e) st)) evs)) \<and>
         d \<notin> set (trail (run ns (snd (step ns (MouseMove e) st)) evs))"
proof -
  define st1 where "st1 = snd (step ns (MouseMove e) st)"
  define st2 where "st2 = run ns st1 evs"
  have so: "sound st" using assms(1) by (simp add: sound_reachable)
  have so1: "sound st1" unfolding st1_def by (rule sound_step[OF so])
  have so2: "sound st2" unfolding st2_def by (rule sound_run[OF so1])
  have sp: "spawns_only st st1"
    unfolding st1_def using spawns_only_dispatch[OF so, of ns e "listeners st"] by simp
  have q: "trail_dots st = trail st" "trail_dots st1 = trail st1" "trail_dots st2 = trail st2"
    using so so1 so2 by (simp_all add: sound_def queue_on_surface_def)
  have a2: "d \<in> set (trail_dots st1)" using assms(2) by (simp only: st1_def)
  have d1: "d \<in> set (trail st1)" "d \<notin> set (trail st)" "is_trail_dot st1 d"
    using a2 assms(3) by (simp_all add: q[symmetric]) (simp add: trail_dots_def)
  with sp have new: "next_ref st \<le> d" by (auto simp: spawns_only_def)
  have below: "d < next_ref st1"
    using so1 d1(1) by (auto simp: sound_def allocated_def refs_of_def)
  have old: "snd t < next_ref st" if "t \<in> set (timers st)" for t
    using so that by (auto simp: sound_def allocated_def refs_of_def)
  have due1: "\<forall>t \<in> set (timers st1). snd t = d \<longrightarrow> fst t = clock st + 100"
  proof (intro ballI impI)
    fix t assume t: "t \<in> set (timers st1)" "snd t = d"
    with sp have "t \<in> set (timers st) \<or> (next_ref st \<le> snd t \<and> fst t = clock st + 100)"
      by (auto simp: spawns_only_def)
    with old[of t] t(2) new show "fst t = clock st + 100" by auto
  qed
  have due2: "\<forall>t \<in> set (timers st2). snd t = d \<longrightarrow> fst t = clock st + 100"
    unfolding st2_def by (rule timer_due_kept[OF so1 below due1])
  have dot2: "is_trail_dot st2 d"
    using extends_run_dot[OF so1 below, of ns evs] d1(3) by (simp add: st2_def)
  have late: "clock st + 100 \<le> clock st2"
    using assms(4) by (simp add: st1_def st2_def)
  have notq: "d \<notin> set (trail st2)"
  proof
    assume "d \<in> set (trail st2)"
    with so2 obtain t where "t \<in> set (timers st2)" "snd t = d" "clock st2 < fst t"
      by (auto simp: sound_def timers_pending_def)
    with due2 late show False by auto
  qed
  have "d \<notin> set (children_of_body st2)"
  proof
    assume "d \<in> set (children_of_body st2)"
    with dot2 have "d \<in> set (trail_dots st2)" by (simp add: trail_dots_def)
    with q(3) notq show False by simp
  qed
  with notq show ?thesis by (simp add: st1_def st2_def)
qed

theorem dot_gone_after_100ms_witness:
  "patient = run decimal (loaded (Some (custom_red\<lparr>trailLength := Some 100\<rparr>)) True) [Start] \<and>
   3 \<in> set (trail_dots (snd (step decimal (MouseMove \<lparr>clientX = 100, clientY = 100\<rparr>) patient))) \<and>
   3 \<notin> set (trail_dots patient) \<and>
   clock patient + 100 \<le>
     clock (run decimal (snd (step decimal (MouseMove \<lparr>clientX = 100, clientY = 100\<rparr>) patient)) [Elapse 100]) \<and>
   3 \<notin> set (children_of_body
     (run decimal (snd (step decimal (MouseMove \<lparr>clientX = 100, clientY = 100\<rparr>) patient)) [Elapse 100])) \<and>
   3 \<notin> set (trail
     (run decimal (snd (step decimal (MouseMove \<lparr>clientX = 100, clientY = 100\<rparr>) patient)) [Elapse 100]))"
proof -
  have h: "3 \<in> set (trail_dots (snd (step decimal (MouseMove \<lparr>clientX = 100, clientY = 100\<rparr>) patient)))"
    "3 \<notin> set (trail_dots patient)"
    "clock patient + 100 \<le>
       clock (run decimal (snd (step decimal (MouseMove \<lparr>clientX = 100, clientY = 100\<rparr>) patient)) [Elapse 100])"
    by (simp_all add: patient_def trail_dots_def is_trail_dot_def model_defs blank_def)
  from dot_gone_after_100ms[OF patient_def h] h patient_def show ?thesis
    by blast
qed

end
